theory Spec2Isabelle
  imports Main "HOL-Library.Word"
begin

section \<open>Strings, bytes and the platform's values\<close>

text \<open>
  The crawler is one JavaScript module. Its strings are modelled as HOL strings: every
  string the module inspects (URLs as the browser reports them, header values, host names
  and path names of a parsed URL) consists of code units below 256, and every pattern it
  looks for is ASCII. A response body is a list of bytes.

  \<open>null\<close> and \<open>undefined\<close> are \<open>None\<close>; a value is truthy when it is present and not the
  empty string.
\<close>

type_synonym bytes = "8 word list"

datatype error = Error string

fun truthy :: "string option \<Rightarrow> bool" where
  "truthy None = False"
| "truthy (Some s) = (s \<noteq> [])"

text \<open>\<open>a || b\<close> on values that are strings or \<open>null\<close>.\<close>

fun js_or :: "string option \<Rightarrow> string option \<Rightarrow> string option" where
  "js_or a b = (if truthy a then a else b)"

text \<open>\<open>s.startsWith(p)\<close>, \<open>s.endsWith(p)\<close> and \<open>s.includes(p)\<close>.\<close>

fun starts_with :: "'a list \<Rightarrow> 'a list \<Rightarrow> bool" where
  "starts_with s [] = True"
| "starts_with [] (p # ps) = False"
| "starts_with (c # cs) (p # ps) = (c = p \<and> starts_with cs ps)"

definition ends_with :: "'a list \<Rightarrow> 'a list \<Rightarrow> bool" where
  "ends_with s p = starts_with (rev s) (rev p)"

fun str_includes :: "'a list \<Rightarrow> 'a list \<Rightarrow> bool" where
  "str_includes [] p = (p = [])"
| "str_includes (c # cs) p = (starts_with (c # cs) p \<or> str_includes cs p)"

text \<open>
  \<open>toLowerCase\<close>: only the letters \<open>A\<close> to \<open>Z\<close> change. (The platform also lowers
  letters outside ASCII, to letters outside ASCII; every test below looks for an ASCII
  pattern, which such letters never match.) A regular expression with the flag \<open>i\<close> and
  an ASCII pattern is the lower-case pattern matched against the lowered subject.
\<close>

definition lower_char :: "char \<Rightarrow> char" where
  "lower_char c =
     (case map_of (zip ''ABCDEFGHIJKLMNOPQRSTUVWXYZ'' ''abcdefghijklmnopqrstuvwxyz'') c of
        Some l \<Rightarrow> l
      | None \<Rightarrow> c)"

definition toLowerCase :: "string \<Rightarrow> string" where
  "toLowerCase s = map lower_char s"

text \<open>\<open>ct && ct.toLowerCase().includes(p)\<close>\<close>

fun ct_includes :: "string option \<Rightarrow> string \<Rightarrow> bool" where
  "ct_includes None p = False"
| "ct_includes (Some ct) p = (ct \<noteq> [] \<and> str_includes (toLowerCase ct) p)"

text \<open>
  The pattern \<open>E(?:\?|#|$)\<close> for a literal \<open>E\<close>: somewhere in the subject stands \<open>E\<close>,
  followed by \<open>?\<close>, by \<open>#\<close> or by the end of the subject.
\<close>

fun then_query_or_end :: "string \<Rightarrow> bool" where
  "then_query_or_end [] = True"
| "then_query_or_end (c # cs) = (c = CHR ''?'' \<or> c = CHR ''#'')"

fun ext_test :: "string \<Rightarrow> string \<Rightarrow> bool" where
  "ext_test [] e = (e = [])"
| "ext_test (c # cs) e =
     ((starts_with (c # cs) e \<and> then_query_or_end (drop (length e) (c # cs))) \<or> ext_test cs e)"

section \<open>The pure helpers of the crawler\<close>

text \<open>
  \<open>sanitizeFilename\<close>: every character outside \<open>[a-zA-Z0-9-_./]\<close> is replaced by an
  underscore, and only the first 200 characters are kept.
\<close>

definition safe_char :: "char \<Rightarrow> bool" where
  "safe_char c \<longleftrightarrow>
     c \<in> set ''abcdefghijklmnopqrstuvwxyzABCDEFGHIJKLMNOPQRSTUVWXYZ0123456789-_./''"

definition sanitizeFilename :: "string \<Rightarrow> string" where
  "sanitizeFilename url =
     (let clean = map (\<lambda>c. if safe_char c then c else CHR ''_'') url
      in if length clean > 200 then take 200 clean else clean)"

fun guessExtFromContentType :: "string option \<Rightarrow> string option" where
  "guessExtFromContentType ct =
     (if \<not> truthy ct then None
      else let lower = toLowerCase (the ct) in
        if str_includes lower ''application/wasm'' then Some ''.wasm''
        else if str_includes lower ''javascript'' \<or> str_includes lower ''ecmascript''
                \<or> str_includes lower ''text/js'' then Some ''.js''
        else None)"

text \<open>The first four bytes are \<open>00 61 73 6d\<close>.\<close>

fun isWasmByMagic :: "bytes \<Rightarrow> bool" where
  "isWasmByMagic (b0 # b1 # b2 # b3 # rest) = (b0 = 0x00 \<and> b1 = 0x61 \<and> b2 = 0x73 \<and> b3 = 0x6d)"
| "isWasmByMagic short = False"

definition isLikelyJsByHeuristics :: "string option \<Rightarrow> string \<Rightarrow> bool" where
  "isLikelyJsByHeuristics ct url =
     (let u = toLowerCase url in
      if ct_includes ct ''javascript'' then True
      else if ext_test u ''.js'' \<or> ext_test u ''.mjs'' then True
      else if str_includes u ''/js/'' then True
      else if str_includes u ''/javascript/'' then True
      else if str_includes u ''/scripts/'' then True
      else if str_includes u ''.min.js'' then True
      else if str_includes u ''.bundle.js'' then True
      else if str_includes u ''.chunk.js'' then True
      else False)"

definition isLikelyWasmByHeuristics :: "string option \<Rightarrow> string \<Rightarrow> bool" where
  "isLikelyWasmByHeuristics ct url =
     (let u = toLowerCase url in
      if ct_includes ct ''application/wasm'' then True
      else if ext_test u ''.wasm'' then True
      else if starts_with u ''data:application/wasm;'' \<or> starts_with u ''data:application/wasm,''
        then True
      else if str_includes u ''/wasm/'' then True
      else if str_includes u ''/webassembly/'' then True
      else if str_includes u ''/canvas/'' then True
      else if str_includes u ''/canvas2d/'' then True
      else if str_includes u ''/webgl/'' then True
      else if str_includes u ''/flutter/'' then True
      else if str_includes u ''/canvaskit/'' then True
      else if str_includes u ''/emscripten/'' then True
      else if str_includes u ''/unity/'' then True
      else if str_includes u ''/unreal/'' then True
      else False)"

section \<open>Path resolution\<close>

text \<open>
  The platform's \<open>URL\<close> class is not part of the module: its constructor is a parameter
  \<open>new_URL\<close> of the model, \<open>None\<close> where the constructor throws. Of a parsed URL the
  module reads the host name, the path name and the origin.
\<close>

record URL =
  hostname :: string
  pathname :: string
  origin :: string

text \<open>
  \<open>path.extname\<close> on a name without a path separator (the module replaces every \<open>/\<close>
  before it asks): the text from the last dot on; empty when there is no dot, when the
  only dot is the first character, and for the name \<open>..\<close>.
\<close>

definition last_dot :: "string \<Rightarrow> nat option" where
  "last_dot s = (case filter (\<lambda>i. s ! i = CHR ''.'') (rev [0..<length s]) of
                   [] \<Rightarrow> None | i # _ \<Rightarrow> Some i)"

definition extname :: "string \<Rightarrow> string" where
  "extname s =
     (case last_dot s of
        None \<Rightarrow> []
      | Some d \<Rightarrow> if d = 0 \<or> s = ''..'' then [] else drop d s)"

text \<open>\<open>pathname.replace(/^\//, '').replace(/\//g, '_')\<close>\<close>

definition flatten_pathname :: "string \<Rightarrow> string" where
  "flatten_pathname p =
     map (\<lambda>c. if c = CHR ''/'' then CHR ''_'' else c)
       (case p of [] \<Rightarrow> [] | c # cs \<Rightarrow> if c = CHR ''/'' then cs else c # cs)"

text \<open>
  A file path is the list of the arguments that the module hands to \<open>path.join\<close>, in
  order; the platform's joining and normalising of them is not modelled.
\<close>

type_synonym path = "string list"

definition fileTypeFor :: "string option \<Rightarrow> string option \<Rightarrow> string" where
  "fileTypeFor defaultExt contentType =
     (if defaultExt = Some ''.js'' \<or> ct_includes contentType ''javascript'' then ''js''
      else if defaultExt = Some ''.wasm'' \<or> ct_includes contentType ''application/wasm''
        then ''wasm''
      else if truthy contentType then
        (if ct_includes contentType ''css'' then ''css''
         else if ct_includes contentType ''image'' then ''images''
         else if ct_includes contentType ''font'' then ''fonts''
         else if ct_includes contentType ''json'' then ''data''
         else ''other'')
      else ''other'')"

definition fileNameFor :: "string \<Rightarrow> string option \<Rightarrow> string option \<Rightarrow> string" where
  "fileNameFor pathName defaultExt contentType =
     (let fileName = flatten_pathname pathName;
          fileName = (if fileName = [] \<or> ends_with fileName ''_'' then fileName @ ''index''
                      else fileName);
          ext = (if extname fileName \<noteq> [] then extname fileName
                 else case js_or defaultExt (guessExtFromContentType contentType) of
                        Some e \<Rightarrow> e | None \<Rightarrow> [])
      in if extname fileName = [] then fileName @ ext else fileName)"

definition targetPathFor ::
  "(string \<Rightarrow> URL option) \<Rightarrow> string \<Rightarrow> string \<Rightarrow> string option \<Rightarrow> string option \<Rightarrow>
     string option \<Rightarrow> error + path" where
  "targetPathFor new_URL url baseDir defaultExt contentType mainSiteHostname =
     (case new_URL url of
        None \<Rightarrow> Inl (Error ''Invalid URL'')
      | Some urlObj \<Rightarrow>
          let fileType = fileTypeFor defaultExt contentType;
              fileName = fileNameFor (pathname urlObj) defaultExt contentType;
              thirdParty = (truthy mainSiteHostname \<and> hostname urlObj \<noteq> the mainSiteHostname);
              targetHostname = (if thirdParty then the mainSiteHostname else hostname urlObj);
              fileName = (if thirdParty then sanitizeFilename (hostname urlObj) @ ''_'' @ fileName
                          else fileName)
          in Inr [baseDir, sanitizeFilename targetHostname, fileType, sanitizeFilename fileName])"

section \<open>The session, the browser and the file system\<close>

text \<open>
  What the browser hands to the module. A response carries its URL, the resource type of
  its request, its headers, and what reading its body yields: \<open>r_body\<close> at the read in
  the response handler, \<open>r_body_later\<close> at the read in the drain of the pending map, where
  \<open>Inl\<close> is a rejected read or the ten-second timer winning the race.
\<close>

record response =
  r_url :: string
  r_resourceType :: string
  r_headers :: "(string \<times> string) list"
  r_body :: "error + bytes"
  r_body_later :: "error + bytes"

text \<open>
  The closure state of \<open>crawl\<close>: the queue, the two sets (in insertion order), the
  pending map (in insertion order), and what the module did to the outside: the files it
  wrote and the calls it made on the browser. \<open>names\<close> counts the synthetic names
  generated so far.
\<close>

datatype event =
    NewPage
  | Goto string
  | WaitForTimeout nat
  | ClosePage
  | BodyRead string
  | ConsoleError string
  | CloseContext
  | CloseBrowser

record session =
  toVisit :: "string list"
  visited :: "string list"
  saved :: "string list"
  pendingResponses :: "(string \<times> response) list"
  files :: "(path \<times> bytes) list"
  names :: nat
  events :: "event list"

text \<open>
  The collaborators: the URL constructor, whether \<open>ensureDir\<close> and \<open>writeFile\<close>
  succeed for a path, the text of \<open>Date.now()\<close> and of
  \<open>Math.random().toString(36).slice(2)\<close> at the \<open>k\<close>-th synthetic name, the outcome of
  \<open>page.goto\<close> for a URL at an attempt, the responses the browser reports while a page
  settles, and the anchors \<open>page.$$eval\<close> returns.
\<close>

record env =
  new_URL :: "string \<Rightarrow> URL option"
  write_ok :: "path \<Rightarrow> bool"
  date_now :: "nat \<Rightarrow> string"
  random36 :: "nat \<Rightarrow> string"
  goto_result :: "string \<Rightarrow> nat \<Rightarrow> error option"
  page_responses :: "string \<Rightarrow> response list"
  page_links :: "string \<Rightarrow> error + string list"

text \<open>\<open>Set.prototype.add\<close> and \<open>Map.prototype.set\<close>.\<close>

definition set_add :: "'a \<Rightarrow> 'a list \<Rightarrow> 'a list" where
  "set_add x xs = (if x \<in> set xs then xs else xs @ [x])"

definition map_set :: "'k \<Rightarrow> 'v \<Rightarrow> ('k \<times> 'v) list \<Rightarrow> ('k \<times> 'v) list" where
  "map_set k v kvs =
     (if k \<in> set (map fst kvs) then map (\<lambda>(k', v'). if k' = k then (k, v) else (k', v')) kvs
      else kvs @ [(k, v)])"

definition saveBuffer :: "env \<Rightarrow> path \<Rightarrow> bytes \<Rightarrow> session \<Rightarrow> (error + unit) \<times> session" where
  "saveBuffer env filePath buffer s =
     (if write_ok env filePath then (Inr (), s\<lparr>files := files s @ [(filePath, buffer)]\<rparr>)
      else (Inl (Error ''write failed''), s))"

section \<open>Inline WebAssembly in JavaScript text\<close>

text \<open>
  \<open>body.toString('utf8')\<close>: a byte below 128 is the character with that code. A byte
  from 128 on belongs to a character outside ASCII (or to a replacement character); it is
  kept as the character with its code, which no pattern of the module matches.
\<close>

definition decode_text :: "bytes \<Rightarrow> string" where
  "decode_text b = map (\<lambda>w. char_of (unat w)) b"

text \<open>
  \<open>Buffer.from(s, 'base64')\<close>, the platform's forgiving decoder: characters outside the
  alphabet are skipped, decoding stops at the first \<open>=\<close>, and a last group of two or three
  characters gives one or two bytes. It never throws.
\<close>

definition unbase64 :: "char \<Rightarrow> nat option" where
  "unbase64 c =
     map_of (zip ''ABCDEFGHIJKLMNOPQRSTUVWXYZabcdefghijklmnopqrstuvwxyz0123456789+/-_''
               ([0..<64] @ [62, 63])) c"

fun sextets_to_bytes :: "nat list \<Rightarrow> bytes" where
  "sextets_to_bytes (a # b # c # d # rest) =
     of_nat (a * 4 + b div 16) # of_nat ((b mod 16) * 16 + c div 4) # of_nat ((c mod 4) * 64 + d)
       # sextets_to_bytes rest"
| "sextets_to_bytes [a, b, c] = [of_nat (a * 4 + b div 16), of_nat ((b mod 16) * 16 + c div 4)]"
| "sextets_to_bytes [a, b] = [of_nat (a * 4 + b div 16)]"
| "sextets_to_bytes short = []"

definition Buffer_from_base64 :: "string \<Rightarrow> bytes" where
  "Buffer_from_base64 s =
     sextets_to_bytes (List.map_filter unbase64 (takeWhile (\<lambda>c. c \<noteq> CHR ''='') s))"

text \<open>
  The global regular expression \<open>data:application\/wasm;base64,([A-Za-z0-9+/=]+)\<close> run
  with \<open>exec\<close> until it fails: the matches from left to right, each taking the longest
  run of payload characters, the search going on behind the match. The result is the
  list of the captured payloads.
\<close>

definition payload_char :: "char \<Rightarrow> bool" where
  "payload_char c \<longleftrightarrow>
     c \<in> set ''ABCDEFGHIJKLMNOPQRSTUVWXYZabcdefghijklmnopqrstuvwxyz0123456789+/=''"

definition data_url_prefix :: string where
  "data_url_prefix = ''data:application/wasm;base64,''"

function dataUrl_matches :: "string \<Rightarrow> string list" where
  "dataUrl_matches [] = []"
| "dataUrl_matches (c # cs) =
     (let rest = drop (length data_url_prefix) (c # cs) in
      if starts_with (c # cs) data_url_prefix \<and> takeWhile payload_char rest \<noteq> []
      then takeWhile payload_char rest # dataUrl_matches (dropWhile payload_char rest)
      else dataUrl_matches cs)"
  by pat_completeness auto
termination
proof (relation "measure length")
  show "wf (measure length)"
    by simp
next
  fix c :: char and cs rest :: string
  assume rest: "rest = drop (length data_url_prefix) (c # cs)"
  have "length (dropWhile payload_char rest) \<le> length rest"
    by (rule length_dropWhile_le)
  also have "\<dots> < Suc (length cs)"
    by (simp add: rest data_url_prefix_def)
  finally show "(dropWhile payload_char rest, c # cs) \<in> measure length"
    by simp
next
  fix c :: char and cs :: string
  show "(cs, c # cs) \<in> measure length"
    by simp
qed

text \<open>
  The loop over the matches, inside its own \<open>try\<close>: a payload that decodes to bytes
  beginning with the magic number is written under a synthetic name; a failed write ends
  the loop, and the \<open>catch\<close> drops the error.
\<close>

definition inline_path :: "env \<Rightarrow> string \<Rightarrow> string \<Rightarrow> string option \<Rightarrow> nat \<Rightarrow> path" where
  "inline_path env outDir pre ext k =
     [outDir, ''inline/'' @ pre @ date_now env k @ ''_'' @ random36 env k
                @ (case ext of Some e \<Rightarrow> e | None \<Rightarrow> [])]"

fun save_inline :: "env \<Rightarrow> string \<Rightarrow> string list \<Rightarrow> session \<Rightarrow> session" where
  "save_inline env outDir [] s = s"
| "save_inline env outDir (base64 # others) s =
     (let wasmBuf = Buffer_from_base64 base64 in
      if wasmBuf \<noteq> [] \<and> isWasmByMagic wasmBuf then
        (case saveBuffer env (inline_path env outDir ''embedded_'' (Some ''.wasm'') (names s)) wasmBuf
                (s\<lparr>names := Suc (names s)\<rparr>) of
           (Inl e, s1) \<Rightarrow> s1
         | (Inr u, s1) \<Rightarrow> save_inline env outDir others s1)
      else save_inline env outDir others s)"

definition extract_inline :: "env \<Rightarrow> string \<Rightarrow> bytes \<Rightarrow> session \<Rightarrow> session" where
  "extract_inline env outDir body s = save_inline env outDir (dataUrl_matches (decode_text body)) s"

section \<open>The response handler\<close>

text \<open>\<open>headers['content-type'] || headers['Content-Type']\<close>\<close>

definition content_type_of :: "(string \<times> string) list \<Rightarrow> string option" where
  "content_type_of headers = js_or (map_of headers ''content-type'') (map_of headers ''Content-Type'')"

definition queue_pending :: "response \<Rightarrow> session \<Rightarrow> session" where
  "queue_pending response s =
     s\<lparr>pendingResponses := map_set (r_url response) response (pendingResponses s)\<rparr>"

text \<open>
  The branch for a response that the heuristics take for WebAssembly: read the body,
  resolve the path, write, mark the URL saved. Its own \<open>try\<close> turns a failed read, a URL
  that does not parse and a failed write into an entry of the pending map.
\<close>

definition save_wasm_now :: "env \<Rightarrow> string \<Rightarrow> string \<Rightarrow> response \<Rightarrow> session \<Rightarrow> session" where
  "save_wasm_now env outDir mainSiteHostname response s =
     (let url = r_url response in
      case r_body response of
        Inl e \<Rightarrow> queue_pending response s
      | Inr body \<Rightarrow>
          if body \<noteq> [] then
            (let isWasmMagic = isWasmByMagic body in
             case targetPathFor (new_URL env) url outDir (Some ''.wasm'') (Some ''application/wasm'')
                    (Some mainSiteHostname) of
               Inl e \<Rightarrow> queue_pending response s
             | Inr filePath \<Rightarrow>
                 (case saveBuffer env filePath body s of
                    (Inl e, s1) \<Rightarrow> queue_pending response s1
                  | (Inr u, s1) \<Rightarrow> s1\<lparr>saved := set_add url (saved s1)\<rparr>))
          else s)"

text \<open>The test of the content type for JavaScript in the handler.\<close>

definition isJsByContentType :: "string option \<Rightarrow> bool" where
  "isJsByContentType contentType \<longleftrightarrow>
     ct_includes contentType ''javascript'' \<or> ct_includes contentType ''ecmascript''
     \<or> ct_includes contentType ''text/js''
     \<or> ct_includes contentType ''application/javascript''
     \<or> ct_includes contentType ''application/x-javascript''"

text \<open>The content sniff on the first 1000 bytes.\<close>

definition js_tokens :: "string list" where
  "js_tokens = [''function'', ''var'', ''let'', ''const'', ''=>'', ''import'', ''export'', ''class'',
                ''async'', ''await'', ''console.'', ''document.'', ''window.'']"

definition looks_like_js :: "bytes \<Rightarrow> bool" where
  "looks_like_js body = list_ex (str_includes (decode_text (take 1000 body))) js_tokens"

text \<open>The final classification of a response whose body has been read.\<close>

definition decide_ext ::
  "bool \<Rightarrow> bool \<Rightarrow> bool \<Rightarrow> bool \<Rightarrow> bool \<Rightarrow> bool \<Rightarrow> string \<Rightarrow> string option" where
  "decide_ext isWasmHeur isWasmMagic isJsHeur isScriptResource isJsByCT isJsByContent
       resourceType =
     (if isWasmHeur \<or> isWasmMagic then Some ''.wasm''
      else if isJsHeur \<or> isScriptResource \<or> isJsByCT \<or> isJsByContent then Some ''.js''
      else if resourceType = ''script'' then Some ''.js''
      else None)"

text \<open>
  The end of the handler, from the choice of the path on: a \<open>data:\<close> URL gets a synthetic
  name, every other URL goes through the path resolution; the body is written, the URL
  marked saved, and a body saved as JavaScript is scanned for inline WebAssembly. \<open>Inl\<close>
  is an exception that reaches the outer \<open>catch\<close>.
\<close>

definition save_classified ::
  "env \<Rightarrow> string \<Rightarrow> string \<Rightarrow> string \<Rightarrow> string option \<Rightarrow> bytes \<Rightarrow> string option \<Rightarrow> bool \<Rightarrow>
     session \<Rightarrow> (error + unit) \<times> session" where
  "save_classified env outDir mainSiteHostname url contentType body defaultExt isJsHeur s =
     (case (if starts_with url ''data:''
            then (Inr (inline_path env outDir [] defaultExt (names s)), s\<lparr>names := Suc (names s)\<rparr>)
            else (targetPathFor (new_URL env) url outDir defaultExt contentType
                    (Some mainSiteHostname), s)) of
        (Inl e, s0) \<Rightarrow> (Inl e, s0)
      | (Inr filePath, s0) \<Rightarrow>
          (case saveBuffer env filePath body s0 of
             (Inl e, s1) \<Rightarrow> (Inl e, s1)
           | (Inr u, s1) \<Rightarrow>
               let s2 = s1\<lparr>saved := set_add url (saved s1)\<rparr> in
               if (defaultExt = Some ''.js'' \<or> isJsHeur) \<and> body \<noteq> []
               then (Inr (), extract_inline env outDir body s2)
               else (Inr (), s2)))"

text \<open>
  The handler from the first line of its \<open>try\<close>: the guard on \<open>saved\<close>, the heuristics,
  the gate \<open>shouldProcess\<close>, the branch for WebAssembly by heuristics, and for every other
  response the read of the body and the second classification.
\<close>

definition shouldProcess :: "string option \<Rightarrow> string \<Rightarrow> string \<Rightarrow> bool" where
  "shouldProcess contentType url resourceType \<longleftrightarrow>
     isLikelyWasmByHeuristics contentType url \<or> isLikelyJsByHeuristics contentType url
     \<or> resourceType = ''script'' \<or> isJsByContentType contentType \<or> resourceType = ''script''"

definition on_response_try ::
  "env \<Rightarrow> string \<Rightarrow> string \<Rightarrow> response \<Rightarrow> session \<Rightarrow> (error + unit) \<times> session" where
  "on_response_try env outDir mainSiteHostname response s =
     (let url = r_url response;
          resourceType = r_resourceType response;
          contentType = content_type_of (r_headers response);
          isWasmHeur = isLikelyWasmByHeuristics contentType url;
          isJsHeur = isLikelyJsByHeuristics contentType url;
          isScriptResource = (resourceType = ''script'')
      in
      if url = [] \<or> url \<in> set (saved s) then (Inr (), s)
      else if \<not> shouldProcess contentType url resourceType then (Inr (), s)
      else if isWasmHeur then (Inr (), save_wasm_now env outDir mainSiteHostname response s)
      else
        (case r_body response of
           Inl e \<Rightarrow> (Inr (), s)
         | Inr body \<Rightarrow>
             if body = [] then (Inr (), s)
             else
               let isWasmMagic = isWasmByMagic body;
                   isJsByContent = (\<not> isWasmMagic \<and> looks_like_js body)
               in save_classified env outDir mainSiteHostname url contentType body
                    (decide_ext isWasmHeur isWasmMagic isJsHeur isScriptResource
                       (isJsByContentType contentType) isJsByContent resourceType)
                    isJsHeur s))"

text \<open>The handler with its outer \<open>catch\<close>, which swallows the error.\<close>

definition on_response ::
  "env \<Rightarrow> string \<Rightarrow> string \<Rightarrow> response \<Rightarrow> session \<Rightarrow> (error + unit) \<times> session" where
  "on_response env outDir mainSiteHostname response s =
     (case on_response_try env outDir mainSiteHostname response s of
        (Inl e, s') \<Rightarrow> (Inr (), s')
      | (Inr u, s') \<Rightarrow> (Inr (), s'))"

section \<open>The drain of the pending map\<close>

text \<open>
  \<open>processPendingResponses\<close>: for every entry, one read of the body raced against the
  timer, then the same steps as the immediate branch, with no main host name given to
  the path resolution; every error is caught per entry; at the end the map is cleared.
\<close>

fun drain_entries :: "env \<Rightarrow> string \<Rightarrow> (string \<times> response) list \<Rightarrow> session \<Rightarrow> session" where
  "drain_entries env outDir [] s = s"
| "drain_entries env outDir ((url, response) # entries) s =
     (let s0 = s\<lparr>events := events s @ [BodyRead url]\<rparr> in
      case r_body_later response of
        Inl e \<Rightarrow> drain_entries env outDir entries s0
      | Inr body \<Rightarrow>
          if body \<noteq> [] then
            (let isWasmMagic = isWasmByMagic body in
             case targetPathFor (new_URL env) url outDir (Some ''.wasm'') (Some ''application/wasm'')
                    None of
               Inl e \<Rightarrow> drain_entries env outDir entries s0
             | Inr filePath \<Rightarrow>
                 (case saveBuffer env filePath body s0 of
                    (Inl e, s1) \<Rightarrow> drain_entries env outDir entries s1
                  | (Inr u, s1) \<Rightarrow>
                      drain_entries env outDir entries (s1\<lparr>saved := set_add url (saved s1)\<rparr>)))
          else drain_entries env outDir entries s0)"

definition processPendingResponses :: "env \<Rightarrow> string \<Rightarrow> session \<Rightarrow> session" where
  "processPendingResponses env outDir s =
     (drain_entries env outDir (pendingResponses s) s)\<lparr>pendingResponses := []\<rparr>"

section \<open>The request router\<close>

text \<open>
  A routed request: its URL, what \<open>route.fetch()\<close> yields (a response with its \<open>ok\<close>
  flag and the outcome of reading its body), and whether \<open>route.fulfill\<close> fails.
\<close>

record fetched =
  f_ok :: bool
  f_body :: "error + bytes"

record request =
  q_url :: string
  q_fetch :: "error + fetched"
  q_fulfill :: "error option"

definition on_route ::
  "env \<Rightarrow> string \<Rightarrow> string \<Rightarrow> request \<Rightarrow> session \<Rightarrow> (error + unit) \<times> session" where
  "on_route env outDir mainSiteHostname rq s =
     (let url = q_url rq in
      if str_includes url ''compile'' \<and> str_includes url ''wasi'' \<and> str_includes url ''target=arduino''
      then
        (case q_fetch rq of
           Inl e \<Rightarrow> (Inl e, s)
         | Inr response \<Rightarrow>
             let s1 =
               (if f_ok response then
                  (case f_body response of
                     Inl e \<Rightarrow> s
                   | Inr body \<Rightarrow>
                       if body \<noteq> [] then
                         (case targetPathFor (new_URL env) url outDir (Some ''.wasm'')
                                 (Some ''application/wasm'') (Some mainSiteHostname) of
                            Inl e \<Rightarrow> s
                          | Inr filePath \<Rightarrow>
                              (case saveBuffer env filePath body s of
                                 (Inl e, s') \<Rightarrow> s'
                               | (Inr u, s') \<Rightarrow> s'\<lparr>saved := set_add url (saved s')\<rparr>))
                       else s)
                else s)
             in (case q_fulfill rq of Some e \<Rightarrow> (Inl e, s1) | None \<Rightarrow> (Inr (), s1)))
      else (Inr (), s))"

section \<open>Navigation and the page loop\<close>

text \<open>
  \<open>navigateWithRetry\<close>: the \<open>for\<close> loop over \<open>attempt\<close>, which starts at 1. A failed
  attempt that is not the last waits \<open>attempt * 2000\<close> milliseconds; the last one throws.
\<close>

function navigateWithRetry ::
  "env \<Rightarrow> string \<Rightarrow> nat \<Rightarrow> nat \<Rightarrow> session \<Rightarrow> (error + unit) \<times> session" where
  "navigateWithRetry env url maxRetries attempt s =
     (if attempt \<le> maxRetries then
        (let s1 = s\<lparr>events := events s @ [Goto url]\<rparr> in
         case goto_result env url attempt of
           None \<Rightarrow> (Inr (), s1)
         | Some e \<Rightarrow>
             if attempt = maxRetries then (Inl e, s1)
             else navigateWithRetry env url maxRetries (Suc attempt)
                    (s1\<lparr>events := events s1 @ [WaitForTimeout (attempt * 2000)]\<rparr>))
      else (Inr (), s))"
  by pat_completeness auto
termination
  by (relation "measure (\<lambda>(env, url, maxRetries, attempt, s). Suc maxRetries - attempt)") auto

text \<open>The \<open>catch\<close> of the page loop: what it prints for an error message.\<close>

definition report_failure :: "string \<Rightarrow> error \<Rightarrow> event list" where
  "report_failure url e =
     (case e of Error message \<Rightarrow>
        if str_includes message ''ERR_CONNECTION_RESET'' then
          [ConsoleError (''[ERROR] Connection reset for '' @ url @ ''. This might be due to:''),
           ConsoleError ''  - Anti-bot protection'',
           ConsoleError ''  - Server overload'',
           ConsoleError ''  - Network issues'',
           ConsoleError ''  - Rate limiting'']
        else if str_includes message ''ERR_TIMED_OUT'' then
          [ConsoleError (''[ERROR] Timeout for '' @ url @ ''. Server took too long to respond.'')]
        else if str_includes message ''ERR_NAME_NOT_RESOLVED'' then
          [ConsoleError (''[ERROR] DNS resolution failed for '' @ url
                          @ ''. Check if the domain exists.'')]
        else if str_includes message ''ERR_SSL'' then
          [ConsoleError (''[ERROR] SSL/TLS error for '' @ url @ ''. Certificate or protocol issues.'')]
        else [ConsoleError (''[ERROR] Navigation failed for '' @ url @ '': '' @ message)])"

text \<open>
  The loop over the harvested anchors: an anchor of the page's origin that is not in
  \<open>visited\<close> is pushed; an anchor that does not parse is skipped by the inner \<open>catch\<close>.
\<close>

fun push_links :: "env \<Rightarrow> string \<Rightarrow> string list \<Rightarrow> session \<Rightarrow> session" where
  "push_links env org [] s = s"
| "push_links env org (href # hrefs) s =
     push_links env org hrefs
       (case new_URL env href of
          None \<Rightarrow> s
        | Some u \<Rightarrow>
            if origin u = org \<and> href \<notin> set (visited s) then s\<lparr>toVisit := toVisit s @ [href]\<rparr>
            else s)"

text \<open>
  One visit: a new page, the navigation, and then either the \<open>try\<close> block to its end
  (the settle waits, the drain, the harvest) or the \<open>catch\<close>; the \<open>finally\<close> closes the
  page. The response events of the page are handled one after the other while the page
  settles; \<open>newPage\<close>, \<open>waitForTimeout\<close> and \<open>close\<close> are taken to succeed.
\<close>

definition visit_page :: "env \<Rightarrow> string \<Rightarrow> string \<Rightarrow> nat \<Rightarrow> string \<Rightarrow> session \<Rightarrow> session" where
  "visit_page env outDir mainSiteHostname maxPages url s =
     (let s0 = s\<lparr>events := events s @ [NewPage]\<rparr>;
          s5 =
            (case navigateWithRetry env url 3 1 s0 of
               (Inl e, s1) \<Rightarrow> s1\<lparr>events := events s1 @ report_failure url e\<rparr>
             | (Inr u, s1) \<Rightarrow>
                 let s2 = fold (\<lambda>r t. snd (on_response env outDir mainSiteHostname r t))
                            (page_responses env url) s1;
                     s3 = s2\<lparr>events := events s2 @ [WaitForTimeout 5000, WaitForTimeout 2000]\<rparr>;
                     s4 = processPendingResponses env outDir s3
                 in
                 if length (visited s4) < maxPages then
                   (case page_links env url of
                      Inl e \<Rightarrow> s4\<lparr>events := events s4 @ report_failure url e\<rparr>
                    | Inr links \<Rightarrow>
                        (case new_URL env url of
                           None \<Rightarrow>
                             s4\<lparr>events := events s4 @ report_failure url (Error ''Invalid URL'')\<rparr>
                         | Some u \<Rightarrow> push_links env (origin u) (filter (\<lambda>h. h \<noteq> []) links) s4))
                 else s4)
      in s5\<lparr>events := events s5 @ [ClosePage]\<rparr>)"

text \<open>
  The \<open>while\<close> loop: its condition and its body. \<open>maxPages\<close> is a natural number (a
  number that is not positive, or not a number, never lets the loop run, as 0 does).
\<close>

definition loop_continues :: "nat \<Rightarrow> session \<Rightarrow> bool" where
  "loop_continues maxPages s \<longleftrightarrow> toVisit s \<noteq> [] \<and> length (visited s) < maxPages"

definition loop_body :: "env \<Rightarrow> string \<Rightarrow> string \<Rightarrow> nat \<Rightarrow> session \<Rightarrow> session" where
  "loop_body env outDir mainSiteHostname maxPages s =
     (case toVisit s of
        [] \<Rightarrow> s
      | url # queue \<Rightarrow>
          let s1 = s\<lparr>toVisit := queue\<rparr> in
          if url = [] \<or> url \<in> set (visited s1) then s1
          else visit_page env outDir mainSiteHostname maxPages url
                 (s1\<lparr>visited := set_add url (visited s1)\<rparr>))"

text \<open>
  The loop ends: no step of a visit changes \<open>visited\<close>, so every turn of the loop either
  adds a URL to \<open>visited\<close>, which stays below \<open>maxPages\<close>, or only shortens the queue.
\<close>

declare navigateWithRetry.simps [simp del]

lemma saveBuffer_queue:
  "visited (snd (saveBuffer env p b s)) = visited s \<and> toVisit (snd (saveBuffer env p b s)) = toVisit s"
  by (simp add: saveBuffer_def)

lemma save_inline_queue:
  "visited (save_inline env outDir ps s) = visited s \<and> toVisit (save_inline env outDir ps s) = toVisit s"
  by (induction ps arbitrary: s) (auto simp: Let_def saveBuffer_def split: prod.splits sum.splits if_splits)

lemma save_wasm_now_queue:
  "visited (save_wasm_now env outDir m r s) = visited s \<and> toVisit (save_wasm_now env outDir m r s) = toVisit s"
  by (auto simp: save_wasm_now_def queue_pending_def Let_def saveBuffer_def split: prod.splits sum.splits if_splits)

lemma save_classified_queue:
  "visited (snd (save_classified env outDir m url ct body ext j s)) = visited s \<and>
   toVisit (snd (save_classified env outDir m url ct body ext j s)) = toVisit s"
  by (auto simp: save_classified_def Let_def saveBuffer_def extract_inline_def save_inline_queue split: prod.splits sum.splits if_splits)

lemma on_response_try_queue:
  "visited (snd (on_response_try env outDir m r s)) = visited s \<and> toVisit (snd (on_response_try env outDir m r s)) = toVisit s"
  by (simp add: on_response_try_def Let_def save_wasm_now_queue save_classified_queue split: sum.splits)

lemma on_response_queue:
  "visited (snd (on_response env outDir m r s)) = visited s \<and> toVisit (snd (on_response env outDir m r s)) = toVisit s"
  using on_response_try_queue [of env outDir m r s]
  by (auto simp: on_response_def split: prod.splits sum.splits)

lemma fold_on_response_queue:
  "visited (fold (\<lambda>r t. snd (on_response env outDir m r t)) rs s) = visited s \<and>
   toVisit (fold (\<lambda>r t. snd (on_response env outDir m r t)) rs s) = toVisit s"
  by (induction rs arbitrary: s) (simp_all add: on_response_queue)

lemma drain_entries_queue:
  "visited (drain_entries env outDir es s) = visited s \<and> toVisit (drain_entries env outDir es s) = toVisit s"
  by (induction es arbitrary: s) (auto simp: Let_def saveBuffer_def split: prod.splits sum.splits if_splits)

lemma processPendingResponses_queue:
  "visited (processPendingResponses env outDir s) = visited s \<and> toVisit (processPendingResponses env outDir s) = toVisit s"
  by (simp add: processPendingResponses_def drain_entries_queue)

lemma navigateWithRetry_queue:
  "visited (snd (navigateWithRetry env url n a s)) = visited s \<and> toVisit (snd (navigateWithRetry env url n a s)) = toVisit s"
proof (induction env url n a s rule: navigateWithRetry.induct)
  case (1 env url maxRetries attempt s)
  show ?case
    using "1.IH"
    by (subst (1 2) navigateWithRetry.simps) (auto simp: Let_def split: option.splits)
qed

lemma push_links_visited: "visited (push_links env org hs s) = visited s"
  by (induction hs arbitrary: s) (auto split: option.splits)

lemma visit_page_visited: "visited (visit_page env outDir m maxPages url s) = visited s"
proof -
  let ?s0 = "s\<lparr>events := events s @ [NewPage]\<rparr>"
  have nav: "visited (snd (navigateWithRetry env url 3 1 ?s0)) = visited s"
    by (simp add: navigateWithRetry_queue)
  show ?thesis
    using nav
    by (auto simp: visit_page_def Let_def fold_on_response_queue processPendingResponses_queue
        push_links_visited split: prod.splits sum.splits option.splits)
qed



definition empty_session :: session where
  "empty_session = \<lparr>toVisit = [], visited = [], saved = [], pendingResponses = [], files = [],
                     names = 0, events = []\<rparr>"


section \<open>The states of the page loop\<close>

text \<open>
  The states in which the \<open>while\<close> loop tests its condition: the state before the first
  turn, and the state after every turn that the condition allowed.
\<close>

inductive reachable :: "env \<Rightarrow> string \<Rightarrow> string \<Rightarrow> nat \<Rightarrow> session \<Rightarrow> session \<Rightarrow> bool"
  for env outDir mainSiteHostname maxPages s0 where
    start: "reachable env outDir mainSiteHostname maxPages s0 s0"
  | turn: "reachable env outDir mainSiteHostname maxPages s0 s \<Longrightarrow> loop_continues maxPages s \<Longrightarrow>
           reachable env outDir mainSiteHostname maxPages s0
             (loop_body env outDir mainSiteHostname maxPages s)"

code_pred reachable .

section \<open>Inputs of the examples\<close>

text \<open>
  What the platform's URL constructor returns for the URLs that the examples use, and a
  browser and file system in which every write succeeds, every navigation succeeds, and
  pages have no responses and no anchors.
\<close>

definition known_URLs :: "string \<Rightarrow> URL option" where
  "known_URLs = map_of
     [(''https://a.com/'',
         \<lparr>hostname = ''a.com'', pathname = ''/'', origin = ''https://a.com''\<rparr>),
      (''https://a.com/b'',
         \<lparr>hostname = ''a.com'', pathname = ''/b'', origin = ''https://a.com''\<rparr>),
      (''https://a.com/mod'',
         \<lparr>hostname = ''a.com'', pathname = ''/mod'', origin = ''https://a.com''\<rparr>),
      (''https://a.com/x.wasm'',
         \<lparr>hostname = ''a.com'', pathname = ''/x.wasm'', origin = ''https://a.com''\<rparr>),
      (''https://cdn.b.com/x.js'',
         \<lparr>hostname = ''cdn.b.com'', pathname = ''/x.js'', origin = ''https://cdn.b.com''\<rparr>),
      (''https://cdn.b.com/m.wasm'',
         \<lparr>hostname = ''cdn.b.com'', pathname = ''/m.wasm'', origin = ''https://cdn.b.com''\<rparr>),
      (''data:application/wasm;base64,AGFzbQEAAAA='',
         \<lparr>hostname = [], pathname = ''application/wasm;base64,AGFzbQEAAAA='', origin = ''null''\<rparr>)]"

definition quiet_env :: env where
  "quiet_env =
     \<lparr>new_URL = known_URLs, write_ok = (\<lambda>p. True), date_now = (\<lambda>k. ''1700000000000''),
      random36 = (\<lambda>k. ''k3x9''), goto_result = (\<lambda>url attempt. None),
      page_responses = (\<lambda>url. []), page_links = (\<lambda>url. Inr [])\<rparr>"


text \<open>
  Responses and a routed request of the examples: a module of eight bytes that begins
  with the magic number, served as \<open>text/html\<close> for a document, for a script and for a
  script from a \<open>data:\<close> URL; two bytes of HTML served under a name that ends in \<open>.wasm\<close>;
  a \<open>data:\<close> URL of WebAssembly; and a request of the compile service whose fetch fails.
\<close>

definition wasm_magic :: bytes where
  "wasm_magic = [0x00, 0x61, 0x73, 0x6d, 0x01, 0x00, 0x00, 0x00]"

definition html_page_response :: response where
  "html_page_response =
     \<lparr>r_url = ''https://a.com/'', r_resourceType = ''document'',
      r_headers = [(''content-type'', ''text/html'')],
      r_body = Inr wasm_magic, r_body_later = Inr wasm_magic\<rparr>"

definition html_script_response :: response where
  "html_script_response =
     \<lparr>r_url = ''https://a.com/mod'', r_resourceType = ''script'',
      r_headers = [(''content-type'', ''text/html'')],
      r_body = Inr wasm_magic, r_body_later = Inr wasm_magic\<rparr>"

definition not_wasm_response :: response where
  "not_wasm_response =
     \<lparr>r_url = ''https://a.com/x.wasm'', r_resourceType = ''fetch'', r_headers = [],
      r_body = Inr [0x3c, 0x21], r_body_later = Inr [0x3c, 0x21]\<rparr>"

definition data_html_script_response :: response where
  "data_html_script_response =
     \<lparr>r_url = ''data:text/html;base64,AGFzbQEAAAA='', r_resourceType = ''script'',
      r_headers = [(''content-type'', ''text/html'')],
      r_body = Inr wasm_magic, r_body_later = Inr wasm_magic\<rparr>"

definition data_wasm_response :: response where
  "data_wasm_response =
     \<lparr>r_url = ''data:application/wasm;base64,AGFzbQEAAAA='', r_resourceType = ''fetch'',
      r_headers = [(''content-type'', ''application/wasm'')],
      r_body = Inr wasm_magic, r_body_later = Inr wasm_magic\<rparr>"

definition failing_fetch_request :: request where
  "failing_fetch_request =
     \<lparr>q_url = ''https://c.io/compile?wasi&target=arduino'',
      q_fetch = Inl (Error ''net::ERR_CONNECTION_RESET''), q_fulfill = None\<rparr>"


definition twin_links_env :: env where
  "twin_links_env =
     quiet_env\<lparr>page_links := (\<lambda>url. if url = ''https://a.com/''
                                 then Inr [''https://a.com/b'', ''https://a.com/b'']
                                 else Inr [])\<rparr>"

definition first_page_done :: session where
  "first_page_done =
     \<lparr>toVisit = [''https://a.com/b'', ''https://a.com/b''], visited = [''https://a.com/''],
      saved = [], pendingResponses = [], files = [], names = 0,
      events = [NewPage, Goto ''https://a.com/'', WaitForTimeout 5000, WaitForTimeout 2000,
                ClosePage]\<rparr>"

definition second_page_done :: session where
  "second_page_done =
     \<lparr>toVisit = [''https://a.com/b''], visited = [''https://a.com/'', ''https://a.com/b''],
      saved = [], pendingResponses = [], files = [], names = 0,
      events = [NewPage, Goto ''https://a.com/'', WaitForTimeout 5000, WaitForTimeout 2000,
                ClosePage, NewPage, Goto ''https://a.com/b'', WaitForTimeout 5000,
                WaitForTimeout 2000, ClosePage]\<rparr>"




definition bytes_of :: "string \<Rightarrow> bytes" where
  "bytes_of str = map of_char str"

definition shadowed_body :: bytes where
  "shadowed_body = bytes_of ''data:application/wasm;base64,data:application/wasm;base64,AGFzbQEAAAA=''"

definition bad_padding_body :: bytes where
  "bad_padding_body = bytes_of ''data:application/wasm;base64,AGFzbQ=''"

definition loader_body :: bytes where
  "loader_body =
     bytes_of (''fetch('' @ [CHR 0x22] @ ''data:application/wasm;base64,AGFzbQEAAAA=''
               @ [CHR 0x22] @ '')'')"

section \<open>Facts about the helpers\<close>

lemma starts_with_append: "starts_with (p @ t) p"
  by (induction p) simp_all












lemma save_inline_files: "\<exists>new. files (save_inline env outDir ps s) = files s @ new"
proof (induction ps arbitrary: s)
  case Nil
  show ?case by simp
next
  case (Cons p ps)
  show ?case
    using Cons [of "s\<lparr>names := Suc (names s), files := files s @ [(inline_path env outDir ''embedded_'' (Some ''.wasm'') (names s), Buffer_from_base64 p)]\<rparr>"]
      Cons [of s]
    by (auto simp: Let_def saveBuffer_def)
qed



lemma example_third_party:
  "targetPathFor known_URLs ''https://cdn.b.com/x.js'' ''outputRoot'' (Some ''.js'')
       (Some ''application/javascript'') (Some ''a.com'')
     = Inr [''outputRoot'', ''a.com'', ''js'', ''cdn.b.com_x.js'']"
  by (simp add: targetPathFor_def known_URLs_def fileTypeFor_def fileNameFor_def
      sanitizeFilename_def safe_char_def extname_def last_dot_def flatten_pathname_def
      ends_with_def toLowerCase_def lower_char_def)


lemma targetPathFor_shape:
  "targetPathFor parse url baseDir ext ct main = Inr p \<Longrightarrow>
     \<exists>host name. p = [baseDir, sanitizeFilename host, fileTypeFor ext ct, sanitizeFilename name]"
  by (auto simp: targetPathFor_def Let_def split: option.splits)



section \<open>Third-party grouping (claim C1)\<close>




section \<open>Sanitizing and the shape of a save path (claim C4)\<close>




section \<open>Facts about the handlers\<close>

lemma fileType_wasm [simp]: "fileTypeFor (Some ''.wasm'') (Some ''application/wasm'') = ''wasm''"
  by (simp add: fileTypeFor_def toLowerCase_def lower_char_def)

lemma fileType_wasm_html: "fileTypeFor (Some ''.wasm'') (Some ''text/html'') = ''wasm''"
  by (simp add: fileTypeFor_def toLowerCase_def lower_char_def)

lemma targetPathFor_wasm_bucket:
  "targetPathFor parse url outDir (Some ''.wasm'') (Some ''application/wasm'') main = Inr p \<Longrightarrow>
     \<exists>host name. p = [outDir, host, ''wasm'', name]"
  by (auto dest: targetPathFor_shape)

lemma targetPathFor_defined:
  "parse url = Some u \<Longrightarrow> \<exists>p. targetPathFor parse url outDir ext ct main = Inr p"
  by (simp add: targetPathFor_def Let_def)

lemma on_response_wasm_now:
  assumes "r_url r \<noteq> []" and "r_url r \<notin> set (saved s)"
    and "isLikelyWasmByHeuristics (content_type_of (r_headers r)) (r_url r)"
  shows "on_response env outDir main r s = (Inr (), save_wasm_now env outDir main r s)"
  using assms by (simp add: on_response_def on_response_try_def shouldProcess_def Let_def)

lemma save_wasm_now_saves:
  assumes "r_body r = Inr body" and "body \<noteq> []"
    and "targetPathFor (new_URL env) (r_url r) outDir (Some ''.wasm'') (Some ''application/wasm'')
           (Some main) = Inr p"
    and "write_ok env p"
  shows "save_wasm_now env outDir main r s
           = s\<lparr>files := files s @ [(p, body)], saved := set_add (r_url r) (saved s)\<rparr>"
  using assms by (simp add: save_wasm_now_def saveBuffer_def Let_def)

lemma drain_entries_grows:
  "set (files s) \<subseteq> set (files (drain_entries env outDir es s))
   \<and> set (saved s) \<subseteq> set (saved (drain_entries env outDir es s))"
proof (induction es arbitrary: s)
  case Nil
  show ?case by simp
next
  case (Cons e es)
  obtain url r where e: "e = (url, r)"
    by (cases e)
  let ?s0 = "s\<lparr>events := events s @ [BodyRead url]\<rparr>"
  show ?case
  proof (cases "\<exists>body p. r_body_later r = Inr body \<and> body \<noteq> [] \<and>
      targetPathFor (new_URL env) url outDir (Some ''.wasm'') (Some ''application/wasm'') None = Inr p
      \<and> write_ok env p")
    case True
    then obtain body p where b: "r_body_later r = Inr body" "body \<noteq> []"
      "targetPathFor (new_URL env) url outDir (Some ''.wasm'') (Some ''application/wasm'') None = Inr p"
      "write_ok env p"
      by blast
    let ?s1 = "?s0\<lparr>files := files s @ [(p, body)], saved := set_add url (saved s)\<rparr>"
    have step: "drain_entries env outDir (e # es) s = drain_entries env outDir es ?s1"
      using b by (simp add: e Let_def saveBuffer_def)
    from Cons [of ?s1] show ?thesis
      by (auto simp: step set_add_def split: if_splits)
  next
    case False
    then have step: "drain_entries env outDir (e # es) s = drain_entries env outDir es ?s0"
      by (auto simp: e Let_def saveBuffer_def split: sum.splits)
    from Cons [of ?s0] show ?thesis
      by (simp add: step)
  qed
qed

lemma drain_entries_saves:
  assumes "(url, r) \<in> set es" and "r_body_later r = Inr body" and "body \<noteq> []"
    and "targetPathFor (new_URL env) url outDir (Some ''.wasm'') (Some ''application/wasm'') None = Inr p"
    and "write_ok env p"
  shows "(p, body) \<in> set (files (drain_entries env outDir es s))
         \<and> url \<in> set (saved (drain_entries env outDir es s))"
  using assms(1)
proof (induction es arbitrary: s)
  case Nil
  then show ?case by simp
next
  case (Cons e es)
  let ?s0 = "s\<lparr>events := events s @ [BodyRead url]\<rparr>"
  let ?s1 = "?s0\<lparr>files := files s @ [(p, body)], saved := set_add url (saved s)\<rparr>"
  show ?case
  proof (cases "e = (url, r)")
    case True
    have step: "drain_entries env outDir (e # es) s = drain_entries env outDir es ?s1"
      using assms(2-5) by (simp add: True Let_def saveBuffer_def)
    have "(p, body) \<in> set (files ?s1)" "url \<in> set (saved ?s1)"
      by (simp_all add: set_add_def)
    then show ?thesis
      using drain_entries_grows [of ?s1 env outDir es] by (auto simp: step)
  next
    case False
    with Cons.prems have mem: "(url, r) \<in> set es"
      by simp
    obtain url' r' where e: "e = (url', r')"
      by (cases e)
    have "\<exists>t. drain_entries env outDir (e # es) s = drain_entries env outDir es t"
      by (auto simp: e Let_def split: sum.splits prod.splits)
    then show ?thesis
      using Cons.IH [OF mem] by auto
  qed
qed

lemma save_inline_saved: "saved (save_inline env outDir ps s) = saved s"
  by (induction ps arbitrary: s) (auto simp: Let_def saveBuffer_def)

lemma magic_not_empty: "isWasmByMagic body \<Longrightarrow> body \<noteq> []"
  by auto

lemma decide_ext_magic: "decide_ext w True j sc ct jc rt = Some ''.wasm''"
  by (simp add: decide_ext_def)

lemma save_classified_saves:
  assumes "\<not> starts_with url ''data:''"
    and "targetPathFor (new_URL env) url outDir ext ct (Some main) = Inr p"
    and "write_ok env p"
  shows "\<exists>inl. files (snd (save_classified env outDir main url ct body ext j s))
                  = files s @ (p, body) # inl
               \<and> url \<in> set (saved (snd (save_classified env outDir main url ct body ext j s)))"
proof -
  let ?s2 = "s\<lparr>files := files s @ [(p, body)], saved := set_add url (saved s)\<rparr>"
  have inl: "\<exists>new. files (extract_inline env outDir body ?s2) = files ?s2 @ new"
    using save_inline_files [of env outDir "dataUrl_matches (decode_text body)" ?s2]
    by (simp add: extract_inline_def)
  have sv: "saved (extract_inline env outDir body ?s2) = saved ?s2"
    by (simp add: extract_inline_def save_inline_saved)
  have "snd (save_classified env outDir main url ct body ext j s) = ?s2
        \<or> snd (save_classified env outDir main url ct body ext j s) = extract_inline env outDir body ?s2"
    using assms by (simp add: save_classified_def saveBuffer_def Let_def)
  then show ?thesis
    using inl sv by (auto simp: set_add_def)
qed

lemma on_response_catches: "fst (on_response env outDir main r s) = Inr ()"
  by (simp add: on_response_def split: prod.splits sum.splits)

lemma html_page_is_skipped: "on_response quiet_env ''out'' ''a.com'' html_page_response empty_session = (Inr (), empty_session)"
  by (simp add: on_response_def on_response_try_def html_page_response_def shouldProcess_def
   content_type_of_def isLikelyWasmByHeuristics_def isLikelyJsByHeuristics_def isJsByContentType_def
   toLowerCase_def lower_char_def empty_session_def)

lemma data_html_script_example:
  "on_response quiet_env ''out'' ''a.com'' data_html_script_response empty_session
     = (Inr (),
        empty_session
          \<lparr>files := [([''out'', ''inline/1700000000000_k3x9.wasm''], wasm_magic)],
           saved := [''data:text/html;base64,AGFzbQEAAAA=''], names := 1\<rparr>)"
  by (simp add: on_response_def on_response_try_def data_html_script_response_def shouldProcess_def
      content_type_of_def isLikelyWasmByHeuristics_def isLikelyJsByHeuristics_def
      isJsByContentType_def toLowerCase_def lower_char_def empty_session_def wasm_magic_def
      decide_ext_def save_classified_def inline_path_def quiet_env_def saveBuffer_def set_add_def)

lemma data_wasm_example: "on_response quiet_env ''out'' ''a.com'' data_wasm_response empty_session
     = (Inr (), empty_session\<lparr>files := [([''out'', ''a.com'', ''wasm'', ''_application_wasm_base64_AGFzbQEAAAA_.wasm''], wasm_magic)],
          saved := [''data:application/wasm;base64,AGFzbQEAAAA='']\<rparr>)"
  by (simp add: on_response_def on_response_try_def data_wasm_response_def shouldProcess_def
   content_type_of_def isLikelyWasmByHeuristics_def
   toLowerCase_def lower_char_def empty_session_def save_wasm_now_def wasm_magic_def
   targetPathFor_def quiet_env_def known_URLs_def fileNameFor_def sanitizeFilename_def safe_char_def
   extname_def last_dot_def flatten_pathname_def ends_with_def saveBuffer_def set_add_def)

lemma failing_fetch_example: "on_route quiet_env ''out'' ''a.com'' failing_fetch_request empty_session
     = (Inl (Error ''net::ERR_CONNECTION_RESET''), empty_session)"
  by (simp add: on_route_def failing_fetch_request_def)

lemma not_wasm_heur: "isLikelyWasmByHeuristics (content_type_of (r_headers not_wasm_response)) (r_url not_wasm_response)"
  by (simp add: not_wasm_response_def content_type_of_def isLikelyWasmByHeuristics_def toLowerCase_def lower_char_def)

lemma html_script_gate:
  "shouldProcess (Some ''text/html'') (r_url html_script_response) (r_resourceType html_script_response)"
  by (simp add: shouldProcess_def html_script_response_def)

section \<open>The second magic check does not gate the write (claim C10)\<close>

text \<open>
  C10: a response that the heuristics take for WebAssembly and whose body read yields a
  buffer that is not empty is written into the bucket \<open>wasm\<close> and its URL is marked saved,
  in the response handler and in the drain of the pending map alike, whatever the first
  four bytes of the buffer are (the URL parses and the write succeeds). The bytes need
  not begin with the magic number: the hypotheses say nothing about them.
\<close>

theorem wasm_saved_without_magic_check:
  assumes "body \<noteq> []" and "new_URL env (r_url r) = Some u" and "\<forall>p. write_ok env p"
  shows "(r_url r \<noteq> [] \<and> r_url r \<notin> set (saved s)
            \<and> isLikelyWasmByHeuristics (content_type_of (r_headers r)) (r_url r)
            \<and> r_body r = Inr body \<longrightarrow>
          (\<exists>host name. on_response env outDir main r s
             = (Inr (), s\<lparr>files := files s @ [([outDir, host, ''wasm'', name], body)],
                          saved := saved s @ [r_url r]\<rparr>)))
       \<and> ((r_url r, r) \<in> set (pendingResponses s) \<and> r_body_later r = Inr body \<longrightarrow>
          (\<exists>host name.
              ([outDir, host, ''wasm'', name], body) \<in> set (files (processPendingResponses env outDir s))
              \<and> r_url r \<in> set (saved (processPendingResponses env outDir s))))"
proof (intro conjI impI)
  assume h: "r_url r \<noteq> [] \<and> r_url r \<notin> set (saved s)
            \<and> isLikelyWasmByHeuristics (content_type_of (r_headers r)) (r_url r)
            \<and> r_body r = Inr body"
  obtain p where p: "targetPathFor (new_URL env) (r_url r) outDir (Some ''.wasm'')
      (Some ''application/wasm'') (Some main) = Inr p"
    using targetPathFor_defined [of "new_URL env" "r_url r" u] assms(2) by blast
  then obtain host name where shape: "p = [outDir, host, ''wasm'', name]"
    by (blast dest: targetPathFor_wasm_bucket)
  have "on_response env outDir main r s = (Inr (), save_wasm_now env outDir main r s)"
    using h by (simp add: on_response_wasm_now)
  also have "save_wasm_now env outDir main r s
      = s\<lparr>files := files s @ [(p, body)], saved := set_add (r_url r) (saved s)\<rparr>"
    using h assms p by (simp add: save_wasm_now_saves)
  finally show "\<exists>host name. on_response env outDir main r s
             = (Inr (), s\<lparr>files := files s @ [([outDir, host, ''wasm'', name], body)],
                          saved := saved s @ [r_url r]\<rparr>)"
    using h shape by (auto simp: set_add_def)
next
  assume h: "(r_url r, r) \<in> set (pendingResponses s) \<and> r_body_later r = Inr body"
  obtain p where p: "targetPathFor (new_URL env) (r_url r) outDir (Some ''.wasm'')
      (Some ''application/wasm'') None = Inr p"
    using targetPathFor_defined [of "new_URL env" "r_url r" u] assms(2) by blast
  then obtain host name where shape: "p = [outDir, host, ''wasm'', name]"
    by (blast dest: targetPathFor_wasm_bucket)
  from drain_entries_saves [of "r_url r" r "pendingResponses s" body env outDir p s] h assms p
  show "\<exists>host name.
      ([outDir, host, ''wasm'', name], body) \<in> set (files (processPendingResponses env outDir s))
      \<and> r_url r \<in> set (saved (processPendingResponses env outDir s))"
    by (auto simp: processPendingResponses_def shape)
qed

text \<open>
  The theorem of C10 at two bytes of HTML served as \<open>https://a.com/x.wasm\<close>: they do not
  begin with the magic number, and both save paths write them into the bucket \<open>wasm\<close>.
\<close>

theorem wasm_saved_without_magic_check_witness:
  "\<not> isWasmByMagic [0x3c, 0x21]
   \<and> new_URL quiet_env (r_url not_wasm_response)
       = Some \<lparr>hostname = ''a.com'', pathname = ''/x.wasm'', origin = ''https://a.com''\<rparr>
   \<and> isLikelyWasmByHeuristics (content_type_of (r_headers not_wasm_response)) (r_url not_wasm_response)
   \<and> r_body not_wasm_response = Inr [0x3c, 0x21]
   \<and> (\<exists>host name. on_response quiet_env ''out'' ''a.com'' not_wasm_response empty_session
          = (Inr (), empty_session\<lparr>files := files empty_session @ [([''out'', host, ''wasm'', name], [0x3c, 0x21])],
                                     saved := saved empty_session @ [r_url not_wasm_response]\<rparr>))
   \<and> (\<exists>host name.
         ([''out'', host, ''wasm'', name], [0x3c, 0x21])
           \<in> set (files (processPendingResponses quiet_env ''out''
                    (empty_session\<lparr>pendingResponses := [(r_url not_wasm_response, not_wasm_response)]\<rparr>)))
         \<and> r_url not_wasm_response
           \<in> set (saved (processPendingResponses quiet_env ''out''
                    (empty_session\<lparr>pendingResponses := [(r_url not_wasm_response, not_wasm_response)]\<rparr>))))"
proof -
  let ?u = "\<lparr>hostname = ''a.com'', pathname = ''/x.wasm'', origin = ''https://a.com''\<rparr>"
  have h1: "[0x3c, 0x21] \<noteq> ([] :: bytes)"
    by simp
  have h2: "new_URL quiet_env (r_url not_wasm_response) = Some ?u"
    by (simp add: quiet_env_def known_URLs_def not_wasm_response_def)
  have h3: "\<forall>p. write_ok quiet_env p"
    by (simp add: quiet_env_def)
  have h4: "r_url not_wasm_response \<noteq> [] \<and> r_url not_wasm_response \<notin> set (saved empty_session)
      \<and> r_body not_wasm_response = Inr [0x3c, 0x21] \<and> r_body_later not_wasm_response = Inr [0x3c, 0x21]"
    by (simp add: not_wasm_response_def empty_session_def)
  note t = wasm_saved_without_magic_check [OF h1 h2 h3, where outDir = "''out''" and main = "''a.com''"]
  from t [where s = empty_session, THEN conjunct1]
    t [where s = "empty_session\<lparr>pendingResponses := [(r_url not_wasm_response, not_wasm_response)]\<rparr>",
       THEN conjunct2]
    h2 h4 not_wasm_heur
  show ?thesis
    by simp
qed

section \<open>Magic bytes and the declared content type (claim C2)\<close>

text \<open>
  C2, as stated: every observed response declared \<open>text/html\<close> whose body begins with
  \<open>00 61 73 6D\<close> is saved into the bucket \<open>wasm\<close>. The handler reads a body only behind
  its gate \<open>shouldProcess\<close>: a document at \<open>https://a.com/\<close> declared \<open>text/html\<close> passes
  no heuristic, is skipped before its body is read, and nothing is written. And a script
  from a \<open>data:\<close> URL declared \<open>text/html\<close> is written under \<open>inline/\<close>, with the
  extension \<open>.wasm\<close> but in no bucket.
\<close>

theorem magic_bytes_behind_gate_counterexample:
  "content_type_of (r_headers html_page_response) = Some ''text/html''
   \<and> r_body html_page_response = Inr wasm_magic
   \<and> isWasmByMagic wasm_magic
   \<and> on_response quiet_env ''out'' ''a.com'' html_page_response empty_session = (Inr (), empty_session)
   \<and> files empty_session = []
   \<and> content_type_of (r_headers data_html_script_response) = Some ''text/html''
   \<and> r_body data_html_script_response = Inr wasm_magic
   \<and> files (snd (on_response quiet_env ''out'' ''a.com'' data_html_script_response empty_session))
       = [([''out'', ''inline/1700000000000_k3x9.wasm''], wasm_magic)]"
proof -
  have headers: "content_type_of (r_headers html_page_response) = Some ''text/html''
      \<and> r_body html_page_response = Inr wasm_magic
      \<and> content_type_of (r_headers data_html_script_response) = Some ''text/html''
      \<and> r_body data_html_script_response = Inr wasm_magic"
    by (simp add: html_page_response_def data_html_script_response_def content_type_of_def)
  have magic: "isWasmByMagic wasm_magic"
    by (simp add: wasm_magic_def)
  have none: "files empty_session = []"
    by (simp add: empty_session_def)
  have inline:
    "files (snd (on_response quiet_env ''out'' ''a.com'' data_html_script_response empty_session))
       = [([''out'', ''inline/1700000000000_k3x9.wasm''], wasm_magic)]"
    by (simp add: data_html_script_example)
  from headers magic html_page_is_skipped none inline show ?thesis
    by simp
qed

text \<open>
  C2, amended: every response declared \<open>text/html\<close> that passes the gate of the handler
  (a heuristic on its URL, or the resource type \<open>script\<close>), that is not saved already and
  not a \<open>data:\<close> URL, and whose body is read and begins with \<open>00 61 73 6D\<close>, is written
  into the bucket \<open>wasm\<close> and marked saved (the URL parses and the write succeeds).
\<close>

theorem magic_bytes_give_wasm_bucket:
  assumes "content_type_of (r_headers r) = Some ''text/html''"
    and "r_url r \<noteq> []" and "r_url r \<notin> set (saved s)"
    and "shouldProcess (Some ''text/html'') (r_url r) (r_resourceType r)"
    and "\<not> starts_with (r_url r) ''data:''"
    and "r_body r = Inr body" and "isWasmByMagic body"
    and "new_URL env (r_url r) = Some u" and "\<forall>p. write_ok env p"
  shows "\<exists>host name inl.
           files (snd (on_response env outDir main r s))
             = files s @ ([outDir, host, ''wasm'', name], body) # inl
           \<and> r_url r \<in> set (saved (snd (on_response env outDir main r s)))"
proof (cases "isLikelyWasmByHeuristics (Some ''text/html'') (r_url r)")
  case True
  obtain p where p: "targetPathFor (new_URL env) (r_url r) outDir (Some ''.wasm'')
      (Some ''application/wasm'') (Some main) = Inr p"
    using targetPathFor_defined [of "new_URL env" "r_url r" u] assms(8) by blast
  then obtain host name where shape: "p = [outDir, host, ''wasm'', name]"
    by (blast dest: targetPathFor_wasm_bucket)
  have "on_response env outDir main r s = (Inr (), save_wasm_now env outDir main r s)"
    using assms True by (simp add: on_response_wasm_now)
  moreover have "save_wasm_now env outDir main r s
      = s\<lparr>files := files s @ [(p, body)], saved := set_add (r_url r) (saved s)\<rparr>"
    using assms p by (simp add: save_wasm_now_saves magic_not_empty)
  ultimately show ?thesis
    by (simp add: shape set_add_def)
next
  case False
  obtain p where p: "targetPathFor (new_URL env) (r_url r) outDir (Some ''.wasm'')
      (Some ''text/html'') (Some main) = Inr p"
    using targetPathFor_defined [of "new_URL env" "r_url r" u] assms(8) by blast
  then obtain host name where shape: "p = [outDir, host, ''wasm'', name]"
    by (auto dest!: targetPathFor_shape simp: fileType_wasm_html)
  have "snd (on_response env outDir main r s)
      = snd (save_classified env outDir main (r_url r) (Some ''text/html'') body (Some ''.wasm'')
               (isLikelyJsByHeuristics (Some ''text/html'') (r_url r)) s)"
    using assms False
    by (simp add: on_response_def on_response_try_def Let_def decide_ext_magic magic_not_empty
        split: prod.splits sum.splits)
  then show ?thesis
    using save_classified_saves [OF assms(5) p, of body
        "isLikelyJsByHeuristics (Some ''text/html'') (r_url r)" s] assms(9)
    by (auto simp: shape)
qed

text \<open>The theorem of C2 at a script served as \<open>text/html\<close> that is a WebAssembly module.\<close>

theorem magic_bytes_give_wasm_bucket_witness:
  "content_type_of (r_headers html_script_response) = Some ''text/html''
   \<and> shouldProcess (Some ''text/html'') (r_url html_script_response) (r_resourceType html_script_response)
   \<and> r_body html_script_response = Inr wasm_magic
   \<and> isWasmByMagic wasm_magic
   \<and> (\<exists>host name inl.
         files (snd (on_response quiet_env ''out'' ''a.com'' html_script_response empty_session))
           = files empty_session @ ([''out'', host, ''wasm'', name], wasm_magic) # inl
         \<and> r_url html_script_response
             \<in> set (saved (snd (on_response quiet_env ''out'' ''a.com'' html_script_response empty_session))))"
proof -
  have h1: "content_type_of (r_headers html_script_response) = Some ''text/html''"
    by (simp add: html_script_response_def content_type_of_def)
  have h2: "r_url html_script_response \<noteq> []"
    and h3: "r_url html_script_response \<notin> set (saved empty_session)"
    and h5: "\<not> starts_with (r_url html_script_response) ''data:''"
    and h6: "r_body html_script_response = Inr wasm_magic"
    by (simp_all add: html_script_response_def empty_session_def)
  have h7: "isWasmByMagic wasm_magic"
    by (simp add: wasm_magic_def)
  have h8: "new_URL quiet_env (r_url html_script_response)
      = Some \<lparr>hostname = ''a.com'', pathname = ''/mod'', origin = ''https://a.com''\<rparr>"
    by (simp add: quiet_env_def known_URLs_def html_script_response_def)
  have h9: "\<forall>p. write_ok quiet_env p"
    by (simp add: quiet_env_def)
  from magic_bytes_give_wasm_bucket [OF h1 h2 h3 html_script_gate h5 h6 h7 h8 h9,
      of "''out''" "''a.com''"] h1 html_script_gate h6 h7
  show ?thesis
    by simp
qed

section \<open>The path of a \<open>data:\<close> URL (claim C3)\<close>

text \<open>
  C3 says that a response whose URL starts with \<open>data:\<close> never goes through the path
  resolution, in any branch of the handler. The branch for WebAssembly by heuristics,
  which the URL \<open>data:application/wasm;base64,AGFzbQEAAAA=\<close> takes, has no test for
  \<open>data:\<close>: the body is written to \<open>out/a.com/wasm/_application_wasm_base64_AGFzbQEAAAA_.wasm\<close>,
  a path of the resolution, and to no name under \<open>inline/\<close>. Only the general branch has
  the test.
\<close>

theorem data_wasm_url_goes_through_path_resolution:
  "isLikelyWasmByHeuristics (content_type_of (r_headers data_wasm_response)) (r_url data_wasm_response)
   \<and> starts_with (r_url data_wasm_response) ''data:''
   \<and> on_response quiet_env ''out'' ''a.com'' data_wasm_response empty_session
       = (Inr (),
          empty_session
            \<lparr>files := [([''out'', ''a.com'', ''wasm'', ''_application_wasm_base64_AGFzbQEAAAA_.wasm''],
                        wasm_magic)],
             saved := [''data:application/wasm;base64,AGFzbQEAAAA='']\<rparr>)"
  using data_wasm_example
  by (simp add: data_wasm_response_def content_type_of_def isLikelyWasmByHeuristics_def
      toLowerCase_def lower_char_def)

section \<open>Exceptions in the handlers (claim C8)\<close>

text \<open>
  C8 says that no exception leaves the response handler, and none the request router.
  The first holds: the handler returns normally on every response in every state. The
  router awaits \<open>route.fetch()\<close> outside its \<open>try\<close>: for a request of the compile service
  whose fetch is rejected, the rejection leaves the router.
\<close>

theorem router_fetch_failure_escapes:
  "fst (on_response env outDir main r s) = Inr ()
   \<and> str_includes (q_url failing_fetch_request) ''compile''
   \<and> str_includes (q_url failing_fetch_request) ''wasi''
   \<and> str_includes (q_url failing_fetch_request) ''target=arduino''
   \<and> on_route quiet_env ''out'' ''a.com'' failing_fetch_request empty_session
       = (Inl (Error ''net::ERR_CONNECTION_RESET''), empty_session)"
  using failing_fetch_example on_response_catches [of env outDir main r s]
  by (simp add: failing_fetch_request_def)

section \<open>Facts about navigation and the loop\<close>









lemma push_links_toVisit:
  "\<exists>pushed. toVisit (push_links env org hs s) = toVisit s @ pushed
      \<and> set pushed \<inter> set (visited s) = {}"
proof (induction hs arbitrary: s)
  case Nil
  show ?case by simp
next
  case (Cons h hs)
  show ?case
  proof (cases "\<exists>u. new_URL env h = Some u \<and> origin u = org \<and> h \<notin> set (visited s)")
    case True
    let ?t = "s\<lparr>toVisit := toVisit s @ [h]\<rparr>"
    from True have step: "push_links env org (h # hs) s = push_links env org hs ?t"
      by auto
    from Cons [of ?t] obtain pushed where
      p: "toVisit (push_links env org hs ?t) = toVisit ?t @ pushed"
         "set pushed \<inter> set (visited ?t) = {}"
      by blast
    have "toVisit (push_links env org (h # hs) s) = toVisit s @ (h # pushed)"
      unfolding step p(1) by simp
    moreover have "set (h # pushed) \<inter> set (visited s) = {}"
      using p(2) True by auto
    ultimately show ?thesis
      by blast
  next
    case False
    then have step: "push_links env org (h # hs) s = push_links env org hs s"
      by (auto split: option.splits)
    show ?thesis
      unfolding step by (rule Cons)
  qed
qed

lemma visit_page_toVisit:
  "\<exists>pushed. toVisit (visit_page env outDir main maxPages url s) = toVisit s @ pushed
      \<and> set pushed \<inter> set (visited s) = {}"
proof -
  let ?s0 = "s\<lparr>events := events s @ [NewPage]\<rparr>"
  obtain res s1 where nav: "navigateWithRetry env url 3 (Suc 0) ?s0 = (res, s1)"
    by (cases "navigateWithRetry env url 3 (Suc 0) ?s0")
  have s1: "toVisit s1 = toVisit s" "visited s1 = visited s"
    using navigateWithRetry_queue [of env url 3 "Suc 0" ?s0] by (simp_all add: nav)
  let ?s2 = "fold (\<lambda>r t. snd (on_response env outDir main r t)) (page_responses env url) s1"
  let ?s3 = "?s2\<lparr>events := events ?s2 @ [WaitForTimeout 5000, WaitForTimeout 2000]\<rparr>"
  let ?s4 = "processPendingResponses env outDir ?s3"
  have s4: "toVisit ?s4 = toVisit s" "visited ?s4 = visited s"
    by (simp_all add: processPendingResponses_queue fold_on_response_queue s1)
  have push: "\<exists>pushed. toVisit (push_links env org hs ?s4) = toVisit s @ pushed
      \<and> set pushed \<inter> set (visited s) = {}" for org hs
    using push_links_toVisit [of env org hs ?s4] by (simp only: s4)
  have none: "\<exists>pushed. toVisit s = toVisit s @ pushed \<and> set pushed \<inter> set (visited s) = {}"
    by simp
  show ?thesis
  proof (cases res)
    case (Inl e)
    then show ?thesis
      using nav s1 by (simp add: visit_page_def Let_def)
  next
    case (Inr u)
    have v: "visit_page env outDir main maxPages url s
        = (if length (visited ?s4) < maxPages then
             (case page_links env url of
                Inl e \<Rightarrow> ?s4\<lparr>events := events ?s4 @ report_failure url e\<rparr>
              | Inr links \<Rightarrow>
                  (case new_URL env url of
                     None \<Rightarrow> ?s4\<lparr>events := events ?s4 @ report_failure url (Error ''Invalid URL'')\<rparr>
                   | Some u \<Rightarrow> push_links env (origin u) (filter (\<lambda>h. h \<noteq> []) links) ?s4))
           else ?s4)\<lparr>events := events (if length (visited ?s4) < maxPages then
             (case page_links env url of
                Inl e \<Rightarrow> ?s4\<lparr>events := events ?s4 @ report_failure url e\<rparr>
              | Inr links \<Rightarrow>
                  (case new_URL env url of
                     None \<Rightarrow> ?s4\<lparr>events := events ?s4 @ report_failure url (Error ''Invalid URL'')\<rparr>
                   | Some u \<Rightarrow> push_links env (origin u) (filter (\<lambda>h. h \<noteq> []) links) ?s4))
           else ?s4) @ [ClosePage]\<rparr>"
      using nav Inr by (simp add: visit_page_def Let_def)
    show ?thesis
    proof (cases "length (visited ?s4) < maxPages")
      case False
      then show ?thesis
        unfolding v using s4 by simp
    next
      case True
      note lt = this
      show ?thesis
      proof (cases "page_links env url")
        case (Inl e)
        then show ?thesis
          unfolding v using s4 lt by simp
      next
        case (Inr links)
        note links = this
        show ?thesis
        proof (cases "new_URL env url")
          case None
          then show ?thesis
            unfolding v using s4 lt links by simp
        next
          case (Some w)
          then show ?thesis
            unfolding v using lt links push [of "origin w" "filter (\<lambda>h. h \<noteq> []) links"]
            by simp
        qed
      qed
    qed
  qed
qed

lemma loop_body_queue:
  "\<exists>pushed. toVisit (loop_body env outDir main maxPages s) = tl (toVisit s) @ pushed
      \<and> set pushed \<inter> set (visited (loop_body env outDir main maxPages s)) = {}"
proof (cases "toVisit s")
  case Nil
  then show ?thesis
    by (simp add: loop_body_def)
next
  case (Cons url queue)
  show ?thesis
  proof (cases "url = [] \<or> url \<in> set (visited s)")
    case True
    then show ?thesis
      using Cons by (auto simp: loop_body_def)
  next
    case False
    let ?s1 = "s\<lparr>toVisit := queue, visited := set_add url (visited s)\<rparr>"
    have body: "loop_body env outDir main maxPages s = visit_page env outDir main maxPages url ?s1"
      using False Cons by (simp add: loop_body_def)
    from visit_page_toVisit [of env outDir main maxPages url ?s1]
    show ?thesis
      by (simp add: body Cons visit_page_visited)
  qed
qed

lemma loop_body_visited:
  "\<exists>new. visited (loop_body env outDir main maxPages s) = visited s @ new
      \<and> (distinct (visited s) \<longrightarrow> distinct (visited (loop_body env outDir main maxPages s)))"
  by (cases "toVisit s") (auto simp: loop_body_def Let_def visit_page_visited set_add_def)

lemma reachable_visited:
  assumes "reachable env outDir main maxPages s0 s"
  shows "(\<exists>new. visited s = visited s0 @ new) \<and> (distinct (visited s0) \<longrightarrow> distinct (visited s))"
  using assms
proof (induction rule: reachable.induct)
  case start
  show ?case by simp
next
  case (turn s)
  from loop_body_visited [of env outDir main maxPages s] turn.IH
  show ?case by auto
qed

lemma loop_body_skip:
  "toVisit s = url # queue \<Longrightarrow> url \<in> set (visited s) \<Longrightarrow>
     loop_body env outDir main maxPages s = s\<lparr>toVisit := queue\<rparr>"
  by (simp add: loop_body_def)

lemma navigate_ok:
  "goto_result env url (Suc 0) = None \<Longrightarrow>
     navigateWithRetry env url 3 (Suc 0) s = (Inr (), s\<lparr>events := events s @ [Goto url]\<rparr>)"
  by (subst navigateWithRetry.simps) simp

lemma twin_first_turn:
  "loop_body twin_links_env ''out'' ''a.com'' 2 (empty_session\<lparr>toVisit := [''https://a.com/'']\<rparr>)
     = first_page_done"
  by (simp add: loop_body_def visit_page_def navigate_ok twin_links_env_def quiet_env_def
      known_URLs_def empty_session_def first_page_done_def set_add_def processPendingResponses_def)

lemma twin_second_turn:
  "loop_body twin_links_env ''out'' ''a.com'' 2 first_page_done = second_page_done"
  by (simp add: loop_body_def visit_page_def navigate_ok twin_links_env_def quiet_env_def
      known_URLs_def second_page_done_def first_page_done_def set_add_def processPendingResponses_def)

lemma twin_reachable:
  "reachable twin_links_env ''out'' ''a.com'' 2 (empty_session\<lparr>toVisit := [''https://a.com/'']\<rparr>)
     second_page_done"
proof -
  let ?s0 = "empty_session\<lparr>toVisit := [''https://a.com/'']\<rparr>"
  have c0: "loop_continues 2 ?s0"
    by (simp add: loop_continues_def empty_session_def)
  have c1: "loop_continues 2 first_page_done"
    by (simp add: loop_continues_def first_page_done_def)
  have "reachable twin_links_env ''out'' ''a.com'' 2 ?s0 first_page_done"
    using reachable.turn [OF reachable.start c0, of twin_links_env "''out''" "''a.com''"]
    by (simp only: twin_first_turn)
  from reachable.turn [OF this c1] show ?thesis
    by (simp only: twin_second_turn)
qed

section \<open>Bounded retries (claim C5)\<close>



section \<open>The queue and the visited set (claim C6)\<close>

text \<open>
  C6, as stated: in every reachable state \<open>toVisit\<close> holds no URL that is in \<open>visited\<close>.
  The harvest tests an anchor against \<open>visited\<close> only, not against the queue: a start page
  with two anchors to \<open>https://a.com/b\<close> queues that URL twice, and after the turn that
  pops and visits the first copy the second copy is still queued.
\<close>

theorem queue_holds_visited_url_counterexample:
  "\<exists>s. reachable twin_links_env ''out'' ''a.com'' 2 (empty_session\<lparr>toVisit := [''https://a.com/'']\<rparr>) s
       \<and> ''https://a.com/b'' \<in> set (toVisit s) \<and> ''https://a.com/b'' \<in> set (visited s)"
  using twin_reachable
  by (intro exI [of _ second_page_done]) (simp add: second_page_done_def)

text \<open>
  C6, amended: in every reachable state \<open>visited\<close> extends what it was at the start, and a
  turn of the loop only appends to it; it never holds a URL twice (no page is visited
  twice); the harvest appends only URLs that are not in \<open>visited\<close> when it appends them;
  and a queued URL that has been visited meanwhile is dropped when it is popped, with no
  visit. The queue itself may hold a URL that is in \<open>visited\<close>.
\<close>

theorem visited_grows_queue_may_repeat:
  assumes "reachable env outDir main maxPages s0 s"
  shows "(\<exists>new. visited s = visited s0 @ new)
       \<and> (\<exists>new. visited (loop_body env outDir main maxPages s) = visited s @ new)
       \<and> (distinct (visited s0) \<longrightarrow> distinct (visited s))
       \<and> (\<exists>pushed. toVisit (loop_body env outDir main maxPages s) = tl (toVisit s) @ pushed
             \<and> set pushed \<inter> set (visited (loop_body env outDir main maxPages s)) = {})
       \<and> (\<forall>url queue. toVisit s = url # queue \<and> url \<in> set (visited s) \<longrightarrow>
             loop_body env outDir main maxPages s = s\<lparr>toVisit := queue\<rparr>)"
  using reachable_visited [OF assms] loop_body_visited [of env outDir main maxPages s]
    loop_body_queue [of env outDir main maxPages s]
  by (auto simp: loop_body_skip)

text \<open>The theorem of C6 at the state after the second turn of the example above.\<close>

theorem visited_grows_queue_may_repeat_witness:
  "reachable twin_links_env ''out'' ''a.com'' 2 (empty_session\<lparr>toVisit := [''https://a.com/'']\<rparr>)
     second_page_done
   \<and> (\<exists>new. visited second_page_done = visited (empty_session\<lparr>toVisit := [''https://a.com/'']\<rparr>) @ new)
   \<and> distinct (visited second_page_done)
   \<and> toVisit second_page_done = ''https://a.com/b'' # []
   \<and> ''https://a.com/b'' \<in> set (visited second_page_done)
   \<and> loop_body twin_links_env ''out'' ''a.com'' 2 second_page_done = second_page_done\<lparr>toVisit := []\<rparr>"
proof -
  note t = visited_grows_queue_may_repeat [OF twin_reachable]
  have d0: "distinct (visited (empty_session\<lparr>toVisit := [''https://a.com/'']\<rparr>))"
    by (simp add: empty_session_def)
  have q: "toVisit second_page_done = ''https://a.com/b'' # [] \<and> ''https://a.com/b'' \<in> set (visited second_page_done)"
    by (simp add: second_page_done_def)
  note a = t [THEN conjunct1]
  note c = t [THEN conjunct2, THEN conjunct2, THEN conjunct1, THEN mp, OF d0]
  note e = t [THEN conjunct2, THEN conjunct2, THEN conjunct2, THEN conjunct2, rule_format, OF q]
  from twin_reachable a c q e show ?thesis
    by (intro conjI) simp_all
qed

section \<open>Facts about the drain\<close>



section \<open>The pending map is drained (claim C9)\<close>



section \<open>Facts about the inline extractor\<close>

lemma decode_text_bytes_of: "decode_text (bytes_of str) = str"
proof -
  have "char_of (unat (of_char c :: 8 word)) = c" for c
  proof -
    have "unat (of_char c :: 8 word) = unat (of_nat (of_char c) :: 8 word)"
      by (simp only: of_nat_of_char)
    also have "\<dots> = of_char c mod 256"
      by (simp only: unat_of_nat) simp
    finally show ?thesis
      by simp
  qed
  then show ?thesis
    by (simp add: decode_text_def bytes_of_def map_idI)
qed

lemma save_inline_magic:
  "\<exists>new. files (save_inline env outDir ps s) = files s @ new
     \<and> (\<forall>(p, b) \<in> set new. isWasmByMagic b
           \<and> (\<exists>k. p = inline_path env outDir ''embedded_'' (Some ''.wasm'') k))"
proof (induction ps arbitrary: s)
  case Nil
  show ?case by simp
next
  case (Cons q ps)
  let ?b = "Buffer_from_base64 q"
  let ?p = "inline_path env outDir ''embedded_'' (Some ''.wasm'') (names s)"
  let ?t = "s\<lparr>names := Suc (names s), files := files s @ [(?p, ?b)]\<rparr>"
  consider (written) "isWasmByMagic ?b" "write_ok env ?p"
    | (refused) "isWasmByMagic ?b" "\<not> write_ok env ?p"
    | (skipped) "\<not> isWasmByMagic ?b"
    by blast
  then show ?case
  proof cases
    case written
    then have step: "save_inline env outDir (q # ps) s = save_inline env outDir ps ?t"
      by (simp add: Let_def saveBuffer_def magic_not_empty)
    from Cons [of ?t] obtain new where
      n: "files (save_inline env outDir ps ?t) = files ?t @ new"
         "\<forall>(p, b) \<in> set new. isWasmByMagic b
            \<and> (\<exists>k. p = inline_path env outDir ''embedded_'' (Some ''.wasm'') k)"
      by blast
    have "files (save_inline env outDir (q # ps) s) = files s @ ((?p, ?b) # new)"
      unfolding step n(1) by simp
    moreover have "\<forall>(p, b) \<in> set ((?p, ?b) # new). isWasmByMagic b
            \<and> (\<exists>k. p = inline_path env outDir ''embedded_'' (Some ''.wasm'') k)"
      using n(2) written(1) by auto
    ultimately show ?thesis
      by blast
  next
    case refused
    then have "save_inline env outDir (q # ps) s = s\<lparr>names := Suc (names s)\<rparr>"
      by (simp add: Let_def saveBuffer_def magic_not_empty)
    then show ?thesis
      by simp
  next
    case skipped
    then have step: "save_inline env outDir (q # ps) s = save_inline env outDir ps s"
      by (simp add: Let_def)
    show ?thesis
      unfolding step by (rule Cons)
  qed
qed

lemma save_inline_exact:
  assumes "\<forall>p. write_ok env p"
  shows "\<exists>new. files (save_inline env outDir ps s) = files s @ new
     \<and> map snd new = filter isWasmByMagic (map Buffer_from_base64 ps)"
proof (induction ps arbitrary: s)
  case Nil
  show ?case by simp
next
  case (Cons q ps)
  let ?b = "Buffer_from_base64 q"
  let ?p = "inline_path env outDir ''embedded_'' (Some ''.wasm'') (names s)"
  let ?t = "s\<lparr>names := Suc (names s), files := files s @ [(?p, ?b)]\<rparr>"
  show ?case
  proof (cases "isWasmByMagic ?b")
    case True
    then have step: "save_inline env outDir (q # ps) s = save_inline env outDir ps ?t"
      using assms by (simp add: Let_def saveBuffer_def magic_not_empty)
    from Cons [of ?t] obtain new where
      n: "files (save_inline env outDir ps ?t) = files ?t @ new"
         "map snd new = filter isWasmByMagic (map Buffer_from_base64 ps)"
      by blast
    have "files (save_inline env outDir (q # ps) s) = files s @ ((?p, ?b) # new)"
      unfolding step n(1) by simp
    moreover have "map snd ((?p, ?b) # new) = filter isWasmByMagic (map Buffer_from_base64 (q # ps))"
      using n(2) True by simp
    ultimately show ?thesis
      by (intro exI [of _ "(?p, ?b) # new"]) simp
  next
    case False
    then have step: "save_inline env outDir (q # ps) s = save_inline env outDir ps s"
      by (simp add: Let_def)
    from Cons [of s] obtain new where
      n: "files (save_inline env outDir ps s) = files s @ new"
         "map snd new = filter isWasmByMagic (map Buffer_from_base64 ps)"
      by blast
    show ?thesis
      using n False by (intro exI [of _ new]) (simp add: step)
  qed
qed

lemma dataUrl_matches_first:
  assumes "\<forall>i<length pre. \<not> starts_with (drop i (pre @ data_url_prefix @ rest)) data_url_prefix"
    and "takeWhile payload_char rest \<noteq> []"
  shows "dataUrl_matches (pre @ data_url_prefix @ rest)
           = takeWhile payload_char rest # dataUrl_matches (dropWhile payload_char rest)"
  using assms(1)
proof (induction pre)
  case Nil
  obtain c cs where p: "data_url_prefix = c # cs"
    by (cases data_url_prefix) (simp_all add: data_url_prefix_def)
  show ?case
    using assms(2) by (simp add: p starts_with_append Let_def)
next
  case (Cons a pre)
  from Cons.prems [rule_format, of 0] have no: "\<not> starts_with (a # pre @ data_url_prefix @ rest) data_url_prefix"
    by simp
  have rest': "\<forall>i<length pre. \<not> starts_with (drop i (pre @ data_url_prefix @ rest)) data_url_prefix"
  proof (intro allI impI)
    fix i assume "i < length pre"
    with Cons.prems [rule_format, of "Suc i"] show "\<not> starts_with (drop i (pre @ data_url_prefix @ rest)) data_url_prefix"
      by simp
  qed
  have "dataUrl_matches ((a # pre) @ data_url_prefix @ rest) = dataUrl_matches (pre @ data_url_prefix @ rest)"
    using no by (simp add: Let_def)
  then show ?case
    using Cons.IH [OF rest'] by simp
qed

lemma magic_payload_run:
  "takeWhile payload_char (''AGFzbQEAAAA='' @ post) = ''AGFzbQEAAAA='' @ takeWhile payload_char post"
  by (simp add: payload_char_def)

lemma magic_payload_decodes:
  "Buffer_from_base64 (''AGFzbQEAAAA='' @ tail) = wasm_magic"
  by (simp add: Buffer_from_base64_def List.map_filter_def unbase64_def wasm_magic_def upt_rec)

lemma wasm_magic_is_magic: "isWasmByMagic wasm_magic"
  by (simp add: wasm_magic_def)

lemma extract_inline_finds:
  assumes "\<forall>p. write_ok env p"
    and "decode_text body = pre @ data_url_prefix @ ''AGFzbQEAAAA='' @ post"
    and "\<forall>i<length pre. \<not> starts_with (drop i (decode_text body)) data_url_prefix"
  shows "\<exists>inl. files (extract_inline env outDir body s)
           = files s @ (inline_path env outDir ''embedded_'' (Some ''.wasm'') (names s), wasm_magic) # inl"
proof -
  let ?q = "''AGFzbQEAAAA='' @ takeWhile payload_char post"
  let ?p = "inline_path env outDir ''embedded_'' (Some ''.wasm'') (names s)"
  let ?t = "s\<lparr>names := Suc (names s), files := files s @ [(?p, wasm_magic)]\<rparr>"
  have run: "takeWhile payload_char (''AGFzbQEAAAA='' @ post) = ?q"
    by (rule magic_payload_run)
  have a3: "\<forall>i<length pre. \<not> starts_with
      (drop i (pre @ data_url_prefix @ (''AGFzbQEAAAA='' @ post))) data_url_prefix"
    using assms(3) by (simp only: assms(2))
  have ne: "takeWhile payload_char (''AGFzbQEAAAA='' @ post) \<noteq> []"
    by (simp add: payload_char_def)
  have "dataUrl_matches (decode_text body)
      = takeWhile payload_char (''AGFzbQEAAAA='' @ post)
          # dataUrl_matches (dropWhile payload_char (''AGFzbQEAAAA='' @ post))"
    unfolding assms(2) by (rule dataUrl_matches_first [OF a3 ne])
  then obtain ps where m: "dataUrl_matches (decode_text body) = ?q # ps"
    unfolding run by blast
  have dec: "Buffer_from_base64 ?q = wasm_magic"
    by (rule magic_payload_decodes)
  have step: "save_inline env outDir (?q # ps) s = save_inline env outDir ps ?t"
    using assms(1)
    by (simp only: save_inline.simps Let_def dec)
       (simp add: wasm_magic_is_magic magic_not_empty saveBuffer_def)
  from save_inline_files [of env outDir ps ?t] obtain new where
    n: "files (save_inline env outDir ps ?t) = files ?t @ new"
    by blast
  have "files (extract_inline env outDir body s) = files ?t @ new"
    unfolding extract_inline_def m step by (rule n)
  then show ?thesis
    by simp
qed

lemma save_classified_scans:
  assumes "\<not> starts_with url ''data:''"
    and "targetPathFor (new_URL env) url outDir ext ct (Some main) = Inr p"
    and "write_ok env p" and "body \<noteq> []" and "ext = Some ''.js'' \<or> j"
  shows "snd (save_classified env outDir main url ct body ext j s)
           = extract_inline env outDir body
               (s\<lparr>files := files s @ [(p, body)], saved := set_add url (saved s)\<rparr>)"
  using assms by (auto simp: save_classified_def saveBuffer_def Let_def)

lemma shadowed_contains:
  "str_includes (decode_text shadowed_body) ''data:application/wasm;base64,AGFzbQEAAAA=''"
  by (simp add: shadowed_body_def decode_text_bytes_of)

lemma shadowed_matches: "dataUrl_matches (decode_text shadowed_body) = [''data'']"
  by (simp add: shadowed_body_def decode_text_bytes_of data_url_prefix_def payload_char_def)

lemma shadowed_decodes: "Buffer_from_base64 ''data'' = [0x75, 0xab, 0x5a]"
  by (simp add: Buffer_from_base64_def List.map_filter_def unbase64_def upt_rec)

lemma shadowed_extracts_nothing:
  "extract_inline quiet_env ''out'' shadowed_body empty_session = empty_session"
  by (simp add: extract_inline_def shadowed_matches shadowed_decodes)

lemma bad_padding_matches: "dataUrl_matches (decode_text bad_padding_body) = [''AGFzbQ='']"
  by (simp add: bad_padding_body_def decode_text_bytes_of data_url_prefix_def payload_char_def)

lemma bad_padding_decodes: "Buffer_from_base64 ''AGFzbQ='' = [0x00, 0x61, 0x73, 0x6d]"
  by (simp add: Buffer_from_base64_def List.map_filter_def unbase64_def upt_rec)

lemma bad_padding_is_written:
  "files (extract_inline quiet_env ''out'' bad_padding_body empty_session)
     = [([''out'', ''inline/embedded_1700000000000_k3x9.wasm''], [0x00, 0x61, 0x73, 0x6d])]"
  by (simp add: extract_inline_def bad_padding_matches bad_padding_decodes saveBuffer_def
      inline_path_def quiet_env_def empty_session_def)

lemma loader_text:
  "decode_text loader_body
     = (''fetch('' @ [CHR 0x22]) @ data_url_prefix @ ''AGFzbQEAAAA='' @ ([CHR 0x22] @ '')'')"
  by (simp add: loader_body_def decode_text_bytes_of data_url_prefix_def)

lemma loader_first:
  "\<forall>i<length (''fetch('' @ [CHR 0x22]). \<not> starts_with (drop i (decode_text loader_body)) data_url_prefix"
  by (simp add: loader_body_def decode_text_bytes_of data_url_prefix_def All_less_Suc)

section \<open>Inline extraction (claim C7)\<close>

text \<open>
  C7, as stated: every saved JavaScript body that contains
  \<open>data:application/wasm;base64,AGFzbQEAAAA=\<close> yields an extracted file, and every
  malformed base64 match is discarded. Both fail. The search goes on behind each match,
  and a match takes the longest run of payload characters: in
  \<open>data:application/wasm;base64,data:application/wasm;base64,AGFzbQEAAAA=\<close> the first match
  captures \<open>data\<close>, the search resumes at the colon behind it, and the module is never
  matched; no file is written. And the decoder of the platform rejects nothing: the
  payload \<open>AGFzbQ=\<close>, whose padding is wrong, decodes to \<open>00 61 73 6D\<close> and is written.
\<close>

theorem inline_extraction_counterexample:
  "str_includes (decode_text shadowed_body) ''data:application/wasm;base64,AGFzbQEAAAA=''
   \<and> files (extract_inline quiet_env ''out'' shadowed_body empty_session) = files empty_session
   \<and> dataUrl_matches (decode_text bad_padding_body) = [''AGFzbQ='']
   \<and> files (extract_inline quiet_env ''out'' bad_padding_body empty_session)
       = [([''out'', ''inline/embedded_1700000000000_k3x9.wasm''], [0x00, 0x61, 0x73, 0x6d])]"
  using shadowed_contains bad_padding_matches bad_padding_is_written
  by (simp add: shadowed_extracts_nothing)

text \<open>
  C7, amended: every file that the extractor writes is named
  \<open>inline/embedded_<timestamp>_<random>.wasm\<close> and begins with \<open>00 61 73 6D\<close>; when the
  writes succeed, the files written are exactly the matches whose decoded bytes begin with
  the magic number, in order, so a payload that decodes to anything else is discarded (a
  malformed payload is decoded as far as the decoder of the platform reads it, and kept or
  discarded by the same test); and a body in which the first occurrence of
  \<open>data:application/wasm;base64,\<close> is followed by \<open>AGFzbQEAAAA=\<close> yields, as the first
  extracted file, the eight bytes \<open>00 61 73 6D 01 00 00 00\<close>. The handler runs the
  extractor on every body that it has just written with the extension \<open>.js\<close> or a URL
  that the JavaScript heuristics match.
\<close>

theorem inline_wasm_extraction:
  "(\<exists>new. files (extract_inline env outDir body s) = files s @ new
       \<and> (\<forall>(p, b) \<in> set new. isWasmByMagic b
             \<and> (\<exists>k. p = inline_path env outDir ''embedded_'' (Some ''.wasm'') k)))
   \<and> ((\<forall>p. write_ok env p) \<longrightarrow>
        (\<exists>new. files (extract_inline env outDir body s) = files s @ new
           \<and> map snd new
               = filter isWasmByMagic (map Buffer_from_base64 (dataUrl_matches (decode_text body)))))
   \<and> ((\<forall>p. write_ok env p)
        \<and> decode_text body = pre @ data_url_prefix @ ''AGFzbQEAAAA='' @ post
        \<and> (\<forall>i<length pre. \<not> starts_with (drop i (decode_text body)) data_url_prefix) \<longrightarrow>
        (\<exists>inl. files (extract_inline env outDir body s)
           = files s @ (inline_path env outDir ''embedded_'' (Some ''.wasm'') (names s), wasm_magic)
                         # inl))
   \<and> (\<not> starts_with url ''data:''
        \<and> targetPathFor (new_URL env) url outDir ext ct (Some main) = Inr p
        \<and> write_ok env p \<and> body \<noteq> [] \<and> (ext = Some ''.js'' \<or> j) \<longrightarrow>
        snd (save_classified env outDir main url ct body ext j s)
          = extract_inline env outDir body
              (s\<lparr>files := files s @ [(p, body)], saved := set_add url (saved s)\<rparr>))"
proof (intro conjI impI)
  show "\<exists>new. files (extract_inline env outDir body s) = files s @ new
       \<and> (\<forall>(p, b) \<in> set new. isWasmByMagic b
             \<and> (\<exists>k. p = inline_path env outDir ''embedded_'' (Some ''.wasm'') k))"
    unfolding extract_inline_def by (rule save_inline_magic)
next
  assume "\<forall>p. write_ok env p"
  then show "\<exists>new. files (extract_inline env outDir body s) = files s @ new
           \<and> map snd new
               = filter isWasmByMagic (map Buffer_from_base64 (dataUrl_matches (decode_text body)))"
    unfolding extract_inline_def by (rule save_inline_exact)
next
  assume h: "(\<forall>p. write_ok env p)
        \<and> decode_text body = pre @ data_url_prefix @ ''AGFzbQEAAAA='' @ post
        \<and> (\<forall>i<length pre. \<not> starts_with (drop i (decode_text body)) data_url_prefix)"
  from h have 1: "\<forall>p. write_ok env p"
    by blast
  from h have 2: "decode_text body = pre @ data_url_prefix @ ''AGFzbQEAAAA='' @ post"
    by blast
  from h have 3: "\<forall>i<length pre. \<not> starts_with (drop i (decode_text body)) data_url_prefix"
    by blast
  show "\<exists>inl. files (extract_inline env outDir body s)
           = files s @ (inline_path env outDir ''embedded_'' (Some ''.wasm'') (names s), wasm_magic)
                         # inl"
    by (rule extract_inline_finds [OF 1 2 3])
next
  assume "\<not> starts_with url ''data:''
        \<and> targetPathFor (new_URL env) url outDir ext ct (Some main) = Inr p
        \<and> write_ok env p \<and> body \<noteq> [] \<and> (ext = Some ''.js'' \<or> j)"
  then show "snd (save_classified env outDir main url ct body ext j s)
          = extract_inline env outDir body
              (s\<lparr>files := files s @ [(p, body)], saved := set_add url (saved s)\<rparr>)"
    by (intro save_classified_scans) simp_all
qed

text \<open>The theorem of C7 at a script that fetches a module from a data URL.\<close>

theorem inline_wasm_extraction_witness:
  "(\<forall>p. write_ok quiet_env p)
   \<and> decode_text loader_body
       = (''fetch('' @ [CHR 0x22]) @ data_url_prefix @ ''AGFzbQEAAAA='' @ ([CHR 0x22] @ '')'')
   \<and> (\<exists>new. files (extract_inline quiet_env ''outputRoot'' loader_body empty_session)
               = files empty_session @ new
          \<and> map snd new
              = filter isWasmByMagic
                  (map Buffer_from_base64 (dataUrl_matches (decode_text loader_body))))
   \<and> (\<exists>inl. files (extract_inline quiet_env ''outputRoot'' loader_body empty_session)
         = files empty_session
           @ (inline_path quiet_env ''outputRoot'' ''embedded_'' (Some ''.wasm'') (names empty_session),
              wasm_magic) # inl)
   \<and> snd (save_classified quiet_env ''outputRoot'' ''a.com'' ''https://cdn.b.com/x.js''
            (Some ''application/javascript'') loader_body (Some ''.js'') True empty_session)
       = extract_inline quiet_env ''outputRoot'' loader_body
           (empty_session\<lparr>files := files empty_session
                              @ [([''outputRoot'', ''a.com'', ''js'', ''cdn.b.com_x.js''], loader_body)],
                           saved := set_add ''https://cdn.b.com/x.js'' (saved empty_session)\<rparr>)"
proof -
  have w: "\<forall>p. write_ok quiet_env p"
    by (simp add: quiet_env_def)
  have path: "targetPathFor (new_URL quiet_env) ''https://cdn.b.com/x.js'' ''outputRoot'' (Some ''.js'')
      (Some ''application/javascript'') (Some ''a.com'')
      = Inr [''outputRoot'', ''a.com'', ''js'', ''cdn.b.com_x.js'']"
    using example_third_party by (simp add: quiet_env_def)
  have ne: "loader_body \<noteq> []"
    by (simp add: loader_body_def bytes_of_def)
  have h3: "(\<forall>p. write_ok quiet_env p)
      \<and> decode_text loader_body
          = (''fetch('' @ [CHR 0x22]) @ data_url_prefix @ ''AGFzbQEAAAA='' @ ([CHR 0x22] @ '')'')
      \<and> (\<forall>i<length (''fetch('' @ [CHR 0x22]).
            \<not> starts_with (drop i (decode_text loader_body)) data_url_prefix)"
    using w loader_text loader_first by (intro conjI)
  have h4: "\<not> starts_with ''https://cdn.b.com/x.js'' ''data:''
      \<and> targetPathFor (new_URL quiet_env) ''https://cdn.b.com/x.js'' ''outputRoot'' (Some ''.js'')
           (Some ''application/javascript'') (Some ''a.com'')
          = Inr [''outputRoot'', ''a.com'', ''js'', ''cdn.b.com_x.js'']
      \<and> write_ok quiet_env [''outputRoot'', ''a.com'', ''js'', ''cdn.b.com_x.js'']
      \<and> loader_body \<noteq> [] \<and> (Some ''.js'' = Some ''.js'' \<or> True)"
    using path ne w by simp
  note t = inline_wasm_extraction [where env = quiet_env and outDir = "''outputRoot''"
      and body = loader_body and s = empty_session and pre = "''fetch('' @ [CHR 0x22]"
      and post = "[CHR 0x22] @ '')''" and url = "''https://cdn.b.com/x.js''"
      and ext = "Some ''.js''" and ct = "Some ''application/javascript''" and main = "''a.com''"
      and p = "[''outputRoot'', ''a.com'', ''js'', ''cdn.b.com_x.js'']" and j = True]
  note b = t [THEN conjunct2, THEN conjunct1, THEN mp, OF w]
  note c = t [THEN conjunct2, THEN conjunct2, THEN conjunct1, THEN mp, OF h3]
  note d = t [THEN conjunct2, THEN conjunct2, THEN conjunct2, THEN mp, OF h4]
  from w loader_text b c d show ?thesis
    by (intro conjI)
qed

end
